theory Spec2Isabelle
  imports Complex_Main
begin

chapter \<open>The model\<close>

section \<open>The concurrency-bounded resolver: mapLimitProgress (script.js 345-362)\<close>

text \<open>
  The source:
  \<^verbatim>\<open>
  async function mapLimitProgress(items, limit, fn, onTick) {
    const out = new Array(items.length);
    let i = 0, done = 0;
    const running = new Set();
    async function run(idx) {
      const p = fn(items[idx]).then(v => out[idx] = v).finally(() => {
        running.delete(p);
        done++; onTick?.(done, items.length);
      });
      running.add(p);
      await p;
    }
    while (i < items.length) {
      while (running.size < limit && i < items.length) await run(i++);
      if (running.size) await Promise.race(running);
    }
    return out;
  }
  \<close>
  The copy in the older single-file version of the page is the same text.

  The model is an interleaving semantics. The main coroutine runs synchronously until it
  blocks at one of its two await points; a pending promise of the set \<open>running\<close> settles
  when the environment says so. Which pending promise settles next is chosen by an
  arbitrary oracle \<open>pick\<close>, so no assumption is made on the completion times of the tasks.
  A task is a function to \<open>'e + 'b\<close>: \<open>Inl e\<close> is a promise rejected with \<open>e\<close>, \<open>Inr v\<close> one
  fulfilled with \<open>v\<close>.
\<close>

text \<open>Where the main coroutine stands: at the test of the outer or of the inner
  \<open>while\<close>, blocked in \<open>await run(idx)\<close>, blocked in \<open>await Promise.race(running)\<close>,
  returned, or rejected (an await threw and nothing catches it).\<close>

datatype 'e pc = Outer | Inner | AwaitRun nat | AwaitRace | Returned | Rejected 'e

text \<open>The local variables of one call. \<open>s_out\<close> is \<open>out\<close> (a hole of \<open>new Array(n)\<close> is
  \<open>None\<close>), \<open>s_i\<close> is \<open>i\<close>, \<open>s_done\<close> is \<open>done\<close>, \<open>s_running\<close> is the set \<open>running\<close> (each
  promise named by the index it was created for, in insertion order). Two logs record the
  effects on the outside: \<open>s_calls\<close> the indices \<open>fn\<close> was called for, in order, and
  \<open>s_ticks\<close> the arguments of the calls of \<open>onTick\<close>, in order.\<close>

record ('b, 'e) sched =
  s_out :: "'b option list"
  s_i :: nat
  s_done :: nat
  s_running :: "nat list"
  s_calls :: "nat list"
  s_ticks :: "(nat \<times> nat) list"
  s_pc :: "'e pc"

definition MAX_CONCURRENCY :: nat where
  "MAX_CONCURRENCY = 6"

definition init_sched :: "'a list \<Rightarrow> ('b, 'e) sched" where
  "init_sched items =
     \<lparr> s_out = replicate (length items) None, s_i = 0, s_done = 0, s_running = [],
       s_calls = [], s_ticks = [], s_pc = Outer \<rparr>"

text \<open>The promise created for \<open>idx\<close> settles. The \<open>then\<close> callback stores a fulfilled
  value at \<open>out[idx]\<close> (a rejection skips it); the \<open>finally\<close> callback runs on both
  outcomes: it removes the promise from \<open>running\<close>, increments \<open>done\<close> and calls
  \<open>onTick(done, items.length)\<close>. Then whoever awaits is resumed: \<open>run(idx)\<close> returns or
  rethrows into \<open>await run(idx)\<close> of the main loop, which goes back to the test of the inner
  \<open>while\<close> or rejects the whole call; a pending \<open>Promise.race\<close> settles the same way and
  leads to the test of the outer \<open>while\<close>.\<close>

definition settle :: "'a list \<Rightarrow> ('a \<Rightarrow> 'e + 'b) \<Rightarrow> nat \<Rightarrow> ('b, 'e) sched \<Rightarrow> ('b, 'e) sched" where
  "settle items fn idx c =
     (let r = fn (items ! idx);
          c1 = (case r of Inr v \<Rightarrow> c\<lparr> s_out := (s_out c)[idx := Some v] \<rparr> | Inl e \<Rightarrow> c);
          c2 = c1\<lparr> s_running := removeAll idx (s_running c1),
                   s_done := s_done c1 + 1,
                   s_ticks := s_ticks c1 @ [(s_done c1 + 1, length items)] \<rparr>
      in c2\<lparr> s_pc :=
           (case s_pc c of
              AwaitRun j \<Rightarrow>
                (if j = idx then (case r of Inr v \<Rightarrow> Inner | Inl e \<Rightarrow> Rejected e)
                 else AwaitRun j)
            | AwaitRace \<Rightarrow> (case r of Inr v \<Rightarrow> Outer | Inl e \<Rightarrow> Rejected e)
            | p \<Rightarrow> p) \<rparr>)"

text \<open>One step of the whole system. At a loop test the main coroutine moves on: the inner
  test either starts \<open>run(i++)\<close> (which calls \<open>fn(items[idx])\<close>, adds the promise to
  \<open>running\<close> and blocks the main loop) or leaves the inner loop, where a non-empty
  \<open>running\<close> blocks in \<open>Promise.race\<close> and an empty one leads back to the outer test. At an
  await the promise chosen by \<open>pick\<close> among the pending ones settles; with nothing pending
  the system is stuck. After the return or the rejection nothing moves.\<close>

definition step :: "'a list \<Rightarrow> nat \<Rightarrow> ('a \<Rightarrow> 'e + 'b) \<Rightarrow> (nat \<Rightarrow> nat) \<Rightarrow> ('b, 'e) sched \<Rightarrow> ('b, 'e) sched" where
  "step items limit fn pick c =
     (case s_pc c of
        Outer \<Rightarrow> (if s_i c < length items then c\<lparr> s_pc := Inner \<rparr> else c\<lparr> s_pc := Returned \<rparr>)
      | Inner \<Rightarrow>
          (if length (s_running c) < limit \<and> s_i c < length items
           then c\<lparr> s_running := s_running c @ [s_i c],
                   s_calls := s_calls c @ [s_i c],
                   s_i := s_i c + 1,
                   s_pc := AwaitRun (s_i c) \<rparr>
           else if s_running c \<noteq> [] then c\<lparr> s_pc := AwaitRace \<rparr>
           else c\<lparr> s_pc := Outer \<rparr>)
      | Returned \<Rightarrow> c
      | Rejected e \<Rightarrow> c
      | _ \<Rightarrow>
          (if s_running c = [] then c
           else settle items fn (s_running c ! (pick (s_done c) mod length (s_running c))) c))"

fun exec :: "nat \<Rightarrow> 'a list \<Rightarrow> nat \<Rightarrow> ('a \<Rightarrow> 'e + 'b) \<Rightarrow> (nat \<Rightarrow> nat) \<Rightarrow> ('b, 'e) sched \<Rightarrow> ('b, 'e) sched" where
  "exec 0 items limit fn pick c = c"
| "exec (Suc k) items limit fn pick c = exec k items limit fn pick (step items limit fn pick c)"

text \<open>What the caller of \<open>mapLimitProgress\<close> sees after \<open>k\<close> steps of the system: nothing
  yet (\<open>None\<close>), the returned array, or the rejection.\<close>

definition outcome :: "('b, 'e) sched \<Rightarrow> ('e + 'b option list) option" where
  "outcome c = (case s_pc c of Returned \<Rightarrow> Some (Inr (s_out c)) | Rejected e \<Rightarrow> Some (Inl e) | _ \<Rightarrow> None)"

definition mapLimitProgress :: "nat \<Rightarrow> 'a list \<Rightarrow> nat \<Rightarrow> ('a \<Rightarrow> 'e + 'b) \<Rightarrow> (nat \<Rightarrow> nat) \<Rightarrow> ('e + 'b option list) option" where
  "mapLimitProgress k items limit fn pick = outcome (exec k items limit fn pick (init_sched items))"

text \<open>The reference of the specification: the same tasks run one after the other in
  input order (\<open>for (const x of items) out.push(await fn(x))\<close>); the first rejection ends
  the run.\<close>

fun sequential :: "('a \<Rightarrow> 'e + 'b) \<Rightarrow> 'a list \<Rightarrow> 'e + 'b list" where
  "sequential fn [] = Inr []"
| "sequential fn (x # xs) =
     (case fn x of
        Inl e \<Rightarrow> Inl e
      | Inr v \<Rightarrow> (case sequential fn xs of Inl e \<Rightarrow> Inl e | Inr vs \<Rightarrow> Inr (v # vs)))"


section \<open>JavaScript values\<close>

text \<open>A property that may be missing, \<open>null\<close> or \<open>undefined\<close> is an \<open>option\<close>. A string
  is truthy when it is present and not empty; a number when it is present and not zero.
  A finite number is a rational: it may be negative or fractional, and \<open>-0\<close> is \<open>0\<close>.
  \<open>a || b\<close> is \<open>a\<close> when \<open>a\<close> is truthy and \<open>b\<close> otherwise. Strings are byte strings: the
  patterns matched below are ASCII, and a byte of a character outside ASCII is, like the
  character itself, neither a letter of these patterns nor a word character.\<close>

definition truthy :: "string option \<Rightarrow> bool" where
  "truthy s = (case s of None \<Rightarrow> False | Some t \<Rightarrow> t \<noteq> [])"

definition truthy_num :: "rat option \<Rightarrow> bool" where
  "truthy_num n = (case n of None \<Rightarrow> False | Some k \<Rightarrow> k \<noteq> 0)"

definition js_or :: "string option \<Rightarrow> string option \<Rightarrow> string option" where
  "js_or a b = (if truthy a then a else b)"

definition or_null :: "string option \<Rightarrow> string option" where
  "or_null a = js_or a None"

definition or_default :: "string option \<Rightarrow> string \<Rightarrow> string" where
  "or_default a d = (case a of None \<Rightarrow> d | Some t \<Rightarrow> if t = [] then d else t)"

section \<open>The data of the registry and of the release feed\<close>

text \<open>A file of a version as the registry lists it. \<open>f_sha1\<close> and \<open>f_sha512\<close> are
  \<open>hashes?.sha1\<close> and \<open>hashes?.sha512\<close>; \<open>f_size\<close> is \<open>size\<close> when \<open>Number.isFinite\<close> holds of it
  (any finite number, whatever its sign) and \<open>None\<close> otherwise; \<open>f_primary\<close> is the truth value of \<open>primary\<close>.\<close>

record vfile =
  f_sha1 :: "string option"
  f_sha512 :: "string option"
  f_size :: "rat option"
  f_url :: "string option"
  f_filename :: "string option"
  f_primary :: bool

text \<open>A version. \<open>date_published\<close> is the number \<open>new Date(v.date_published)\<close> evaluates
  to (the registry's time stamps are ISO-8601 strings, so this is the epoch time in
  milliseconds); \<open>files\<close> is \<open>None\<close> when the property is missing or not an array.\<close>

record version =
  v_project_id :: "string option"
  v_name :: "string option"
  version_number :: "string option"
  version_type :: string
  date_published :: int
  files :: "vfile list option"

record project =
  p_slug :: "string option"
  p_title :: "string option"
  p_project_type :: "string option"
  p_loaders :: "string list option"

record asset =
  a_name :: string
  browser_download_url :: "string option"

record release =
  draft :: bool
  prerelease :: bool
  assets :: "asset list option"
  tag_name :: "string option"
  published_at :: "string option"
  created_at :: "string option"

text \<open>What \<open>fetchCarpetGitHubRelease\<close> returns for a match.\<close>

record fallback =
  fb_version_number :: "string option"
  fb_date_published :: "string option"
  fb_download_url :: "string option"
  fb_source :: string

section \<open>Version Selection Policy: getBestTargetVersion (script.js 194-205)\<close>

text \<open>
  \<^verbatim>\<open>
  const versions = await fetchModrinthVersions(projectId, targetMc, loader, projectName);
  if (!versions || !versions.length) return null;
  const tier = v => v.version_type === "release" ? 3 : v.version_type === "beta" ? 2 : 1;
  versions.sort((a, b) => {
    const t = tier(b) - tier(a);
    if (t) return t;
    return new Date(b.date_published) - new Date(a.date_published);
  });
  return versions[0];
  \<close>
  The argument of the model is what \<open>fetchModrinthVersions\<close> returned: \<open>None\<close> for its
  \<open>null\<close> (a failed request or a body that is no array), the array otherwise.\<close>

definition tier :: "version \<Rightarrow> int" where
  "tier v = (if version_type v = ''release'' then 3 else if version_type v = ''beta'' then 2 else 1)"

definition compareFn :: "version \<Rightarrow> version \<Rightarrow> int" where
  "compareFn a b =
     (let t = tier b - tier a
      in if t \<noteq> 0 then t else date_published b - date_published a)"

text \<open>\<open>Array.prototype.sort\<close> with a comparator is a stable sort: \<open>a\<close> comes before \<open>b\<close>
  when the comparator is negative, after it when positive, and elements that compare equal
  keep their order. Insertion from the right does exactly that.\<close>

fun insert_by :: "('a \<Rightarrow> 'a \<Rightarrow> int) \<Rightarrow> 'a \<Rightarrow> 'a list \<Rightarrow> 'a list" where
  "insert_by cmp x [] = [x]"
| "insert_by cmp x (y # ys) = (if cmp x y \<le> 0 then x # y # ys else y # insert_by cmp x ys)"

fun sort_by :: "('a \<Rightarrow> 'a \<Rightarrow> int) \<Rightarrow> 'a list \<Rightarrow> 'a list" where
  "sort_by cmp [] = []"
| "sort_by cmp (x # xs) = insert_by cmp x (sort_by cmp xs)"

definition getBestTargetVersion :: "version list option \<Rightarrow> version option" where
  "getBestTargetVersion fetched =
     (case fetched of
        None \<Rightarrow> None
      | Some versions \<Rightarrow>
          (if versions = [] then None
           else (case sort_by compareFn versions of [] \<Rightarrow> None | v # rest \<Rightarrow> Some v)))"

text \<open>The order of the policy: \<open>better_eq v u\<close> says that \<open>v\<close> is at least as good as \<open>u\<close>,
  by tier first and by publish time second; \<open>same_rank\<close> that the two tie on both keys.\<close>

definition same_rank :: "version \<Rightarrow> version \<Rightarrow> bool" where
  "same_rank v u = (tier u = tier v \<and> date_published u = date_published v)"

definition better_eq :: "version \<Rightarrow> version \<Rightarrow> bool" where
  "better_eq v u = (tier u < tier v \<or> (tier u = tier v \<and> date_published u \<le> date_published v))"


section \<open>Fallback Source Arbiter: fetchCarpetGitHubRelease (script.js 1166-1193)\<close>

text \<open>
  \<^verbatim>\<open>
  const res = await fetch("https://api.github.com/repos/gnembon/fabric-carpet/releases", ...);
  if (!res.ok) return null;
  const releases = await res.json();
  const mcRe = new RegExp(`(^|\\b|-)${escReg(targetMc)}(\\b|-)`);
  for (const r of releases) {
    if (r.draft) continue;
    if (!includePrereleases && r.prerelease) continue;
    const asset = (r.assets || []).find(a =>
      /\.jar$/i.test(a.name) && /fabric-?carpet/i.test(a.name) && mcRe.test(a.name));
    if (asset) {
      return { version_number: r.tag_name || asset.name,
               date_published: r.published_at || r.created_at || null,
               download_url: asset.browser_download_url, source: "github-fallback" };
    }
  }
  return null;
  \<close>
\<close>

text \<open>The three regular expressions, each as the set of strings \<open>test\<close> accepts.
  \<open>escReg\<close> escapes every metacharacter, so the token stands for itself in \<open>mcRe\<close>.\<close>

definition lower :: "char \<Rightarrow> char" where
  "lower c = (let n = (of_char c :: nat) in if 65 \<le> n \<and> n \<le> 90 then char_of (n + 32) else c)"

definition is_word_char :: "char \<Rightarrow> bool" where
  "is_word_char c =
     (let n = (of_char c :: nat)
      in (48 \<le> n \<and> n \<le> 57) \<or> (65 \<le> n \<and> n \<le> 90) \<or> n = 95 \<or> (97 \<le> n \<and> n \<le> 122))"

text \<open>\<open>has_at t s k\<close>: the string \<open>t\<close> stands in \<open>s\<close> at position \<open>k\<close>.\<close>

definition has_at :: "string \<Rightarrow> string \<Rightarrow> nat \<Rightarrow> bool" where
  "has_at t s k = (k + length t \<le> length s \<and> take (length t) (drop k s) = t)"

definition contains :: "string \<Rightarrow> string \<Rightarrow> bool" where
  "contains t s = list_ex (has_at t s) [0 ..< Suc (length s)]"

text \<open>\<open>/\.jar$/i\<close> and \<open>/fabric-?carpet/i\<close>.\<close>

definition jar_test :: "string \<Rightarrow> bool" where
  "jar_test s = (4 \<le> length s \<and> map lower (drop (length s - 4) s) = ''.jar'')"

definition carpet_test :: "string \<Rightarrow> bool" where
  "carpet_test s = (contains ''fabric-carpet'' (map lower s) \<or> contains ''fabriccarpet'' (map lower s))"

text \<open>\<open>\b\<close> at position \<open>p\<close>: exactly one of the characters left and right of \<open>p\<close> is a
  word character, the ends of the string counting as no word character.\<close>

definition word_before :: "string \<Rightarrow> nat \<Rightarrow> bool" where
  "word_before s p = (0 < p \<and> p \<le> length s \<and> is_word_char (s ! (p - 1)))"

definition word_after :: "string \<Rightarrow> nat \<Rightarrow> bool" where
  "word_after s p = (p < length s \<and> is_word_char (s ! p))"

definition word_boundary :: "string \<Rightarrow> nat \<Rightarrow> bool" where
  "word_boundary s p = (word_before s p \<noteq> word_after s p)"

text \<open>\<open>(^|\b|-)TOKEN(\b|-)\<close> with the token at position \<open>k\<close>: before it the start of the
  string, a word boundary or a hyphen; after it a word boundary or a hyphen.\<close>

definition mc_at :: "string \<Rightarrow> string \<Rightarrow> nat \<Rightarrow> bool" where
  "mc_at tok s k =
     (has_at tok s k \<and>
      (k = 0 \<or> word_boundary s k \<or> (0 < k \<and> s ! (k - 1) = CHR ''-'')) \<and>
      (word_boundary s (k + length tok) \<or>
       (k + length tok < length s \<and> s ! (k + length tok) = CHR ''-'')))"

definition mcRe_test :: "string \<Rightarrow> string \<Rightarrow> bool" where
  "mcRe_test tok s = list_ex (mc_at tok s) [0 ..< Suc (length s)]"

definition asset_matches :: "string \<Rightarrow> asset \<Rightarrow> bool" where
  "asset_matches targetMc a = (jar_test (a_name a) \<and> carpet_test (a_name a) \<and> mcRe_test targetMc (a_name a))"

text \<open>The answer of the release feed: the request threw (no network, or a body that is
  no JSON array), a status that is not ok, or the releases in the feed's order.\<close>

datatype gh_response = GhThrows string | GhNotOk | GhReleases "release list"


definition release_asset :: "string \<Rightarrow> release \<Rightarrow> asset option" where
  "release_asset targetMc r =
     find (asset_matches targetMc) (case assets r of None \<Rightarrow> [] | Some xs \<Rightarrow> xs)"

definition release_result :: "release \<Rightarrow> asset \<Rightarrow> fallback" where
  "release_result r a =
     \<lparr> fb_version_number = js_or (tag_name r) (Some (a_name a)),
       fb_date_published = js_or (published_at r) (or_null (created_at r)),
       fb_download_url = browser_download_url a,
       fb_source = ''github-fallback'' \<rparr>"

fun scan_releases :: "string \<Rightarrow> bool \<Rightarrow> release list \<Rightarrow> fallback option" where
  "scan_releases targetMc includePrereleases [] = None"
| "scan_releases targetMc includePrereleases (r # rs) =
     (if draft r then scan_releases targetMc includePrereleases rs
      else if \<not> includePrereleases \<and> prerelease r then scan_releases targetMc includePrereleases rs
      else (case release_asset targetMc r of
              Some a \<Rightarrow> Some (release_result r a)
            | None \<Rightarrow> scan_releases targetMc includePrereleases rs))"

definition fetchCarpetGitHubRelease :: "string \<Rightarrow> bool \<Rightarrow> gh_response \<Rightarrow> string + fallback option" where
  "fetchCarpetGitHubRelease targetMc includePrereleases res =
     (case res of
        GhThrows e \<Rightarrow> Inl e
      | GhNotOk \<Rightarrow> Inr None
      | GhReleases releases \<Rightarrow> Inr (scan_releases targetMc includePrereleases releases))"

section \<open>pickPrimaryFile (script.js 1196-1199)\<close>

text \<open>
  \<^verbatim>\<open>
  if (!version || !Array.isArray(version.files) || !version.files.length) return null;
  return version.files.find(f => f.primary) || version.files[0];
  \<close>\<close>

definition pickPrimaryFile :: "version option \<Rightarrow> vfile option" where
  "pickPrimaryFile version =
     (case version of
        None \<Rightarrow> None
      | Some v \<Rightarrow>
          (case files v of
             None \<Rightarrow> None
           | Some [] \<Rightarrow> None
           | Some (f # fs) \<Rightarrow> (case find f_primary (f # fs) of Some g \<Rightarrow> Some g | None \<Rightarrow> Some f)))"


section \<open>The per-identity task of Modpack.analyze (script.js 372-425)\<close>

text \<open>The manifest of the pack: a declared file, its per-side requirement and the index.\<close>

record env_req =
  client :: string
  server :: string

record manifest_file =
  mf_path :: "string option"
  mf_sha1 :: "string option"
  mf_sha512 :: "string option"
  mf_env :: "env_req option"
  mf_downloads :: "string list"
  mf_fileSize :: "rat option"

record index =
  ix_name :: "string option"
  ix_dependencies :: "string \<rightharpoonup> string"
  ix_files :: "manifest_file list"

text \<open>An entry of \<open>projectEntries\<close> and a row of the result.\<close>

record entry =
  anyVersion :: version
  exampleSha1 :: string
  e_category :: string

datatype candidate = Primary version | Fallback fallback

record row =
  project_id :: string
  project_url :: string
  category :: string
  name :: string
  slug :: "string option"
  current_version_number :: string
  current_mc :: string
  target_loader :: string
  target_available :: bool
  target_version_number :: string
  target_mc :: string
  target_date :: "(int + string) option"
  download_url :: "string option"
  source :: string
  target_file_sha1 :: "string option"
  target_file_sha512 :: "string option"
  target_file_size :: "rat option"
  target_file_url :: "string option"
  target_file_name :: "string option"

text \<open>What the task closes over: the two maps built before, the selections of the page,
  and the two services it asks. \<open>fetchModrinthVersions\<close> gives, for a project, a game
  version and a loader, what the function of that name returns (it catches every failure
  and returns \<open>null\<close>); \<open>carpet_feed\<close> is the answer of the release feed.\<close>

record analysis =
  projectEntries :: "string \<rightharpoonup> entry"
  projectMap :: "string \<rightharpoonup> project"
  packLoader :: string
  targetMc :: string
  PACK_MC :: string
  fetchModrinthVersions :: "string \<Rightarrow> string \<Rightarrow> string \<Rightarrow> version list option"
  carpet_feed :: gh_response

definition getLoaderForProject :: "project option \<Rightarrow> string \<Rightarrow> string \<Rightarrow> string" where
  "getLoaderForProject proj cat pl =
     (if cat = ''mod'' then pl
      else (case (case proj of None \<Rightarrow> None | Some p \<Rightarrow> p_loaders p) of
              Some (l # ls) \<Rightarrow> l
            | _ \<Rightarrow> (if cat = ''resourcepack'' \<or> cat = ''shaderpack'' then ''minecraft'' else pl)))"

definition proj_slug :: "project option \<Rightarrow> string option" where
  "proj_slug proj = (case proj of None \<Rightarrow> None | Some p \<Rightarrow> p_slug p)"

definition isCarpet :: "project option \<Rightarrow> string \<Rightarrow> bool" where
  "isCarpet proj pid = (proj_slug proj = Some ''fabric-carpet'' \<or> pid = ''TQTTVgYE'')"

definition typePath :: "project option \<Rightarrow> string \<Rightarrow> string" where
  "typePath proj cat =
     (let pt = (case proj of None \<Rightarrow> None | Some p \<Rightarrow> p_project_type p)
      in if pt = Some ''mod'' \<or> cat = ''mod'' then ''mod''
         else if pt = Some ''resourcepack'' \<or> cat = ''resourcepack'' then ''resourcepack''
         else if pt = Some ''shader'' \<or> cat = ''shaderpack'' then ''shader''
         else ''project'')"

text \<open>The object the task returns, from the values it has computed: \<open>best\<close>, \<open>src\<close>
  (the local \<open>source\<close>) and \<open>fmeta\<close>; \<open>pmc\<close> and \<open>tmc\<close> are the game version of the pack
  and the target version.\<close>

definition make_row :: "string \<Rightarrow> string \<Rightarrow> string \<Rightarrow> string \<Rightarrow> project option \<Rightarrow> version option \<Rightarrow> string \<Rightarrow>
    candidate option \<Rightarrow> string \<Rightarrow> vfile option \<Rightarrow> row" where
  "make_row pmc tmc pid cat proj rep loader best src fmeta =
     \<lparr> project_id = pid,
       project_url =
         (if truthy (proj_slug proj)
          then ''https://modrinth.com/'' @ typePath proj cat @ ''/'' @ the (proj_slug proj)
          else ''https://modrinth.com/project/'' @ pid),
       category = cat,
       name = or_default (js_or (case proj of None \<Rightarrow> None | Some p \<Rightarrow> p_title p)
                                (case rep of None \<Rightarrow> None | Some v \<Rightarrow> v_name v)) ''(unknown)'',
       slug = proj_slug proj,
       current_version_number = or_default (case rep of None \<Rightarrow> None | Some v \<Rightarrow> version_number v) ''-'',
       current_mc = pmc,
       target_loader = loader,
       target_available = (best \<noteq> None),
       target_version_number =
         or_default (case best of None \<Rightarrow> None
                     | Some (Primary v) \<Rightarrow> version_number v
                     | Some (Fallback g) \<Rightarrow> fb_version_number g) ''-'',
       target_mc = tmc,
       target_date =
         (case best of None \<Rightarrow> None
          | Some (Primary v) \<Rightarrow> Some (Inl (date_published v))
          | Some (Fallback g) \<Rightarrow> map_option Inr (or_null (fb_date_published g))),
       download_url =
         (case best of None \<Rightarrow> None
          | Some (Primary v) \<Rightarrow> (case files v of Some (f # fs) \<Rightarrow> or_null (f_url f) | _ \<Rightarrow> None)
          | Some (Fallback g) \<Rightarrow> or_null (fb_download_url g)),
       source = src,
       target_file_sha1 = or_null (case fmeta of None \<Rightarrow> None | Some f \<Rightarrow> f_sha1 f),
       target_file_sha512 = or_null (case fmeta of None \<Rightarrow> None | Some f \<Rightarrow> f_sha512 f),
       target_file_size = (case fmeta of None \<Rightarrow> None | Some f \<Rightarrow> f_size f),
       target_file_url = or_null (case fmeta of None \<Rightarrow> None | Some f \<Rightarrow> f_url f),
       target_file_name = or_null (case fmeta of None \<Rightarrow> None | Some f \<Rightarrow> f_filename f) \<rparr>"

text \<open>The task. Its result is a pair: the number of calls of
  \<open>fetchCarpetGitHubRelease\<close> it made, and the settled promise (\<open>Inl\<close> when the call of the
  release feed threw, which nothing in the task catches; \<open>Inr\<close> the row).
  \<^verbatim>\<open>
  const rep = projectEntries.get(pid)?.anyVersion;
  const cat = projectEntries.get(pid)?.category || "mod";
  const proj = projectMap.get(pid);
  const loader = getLoaderForProject(proj, cat, packLoader);
  const bestModrinth = await getBestTargetVersion(pid, targetMc, loader, rep?.name);
  let best = bestModrinth;
  let source = proj ? "modrinth" : "none";
  const isCarpet = (proj?.slug === "fabric-carpet") || (pid === "TQTTVgYE");
  if (!bestModrinth && isCarpet) {
    const gh = await fetchCarpetGitHubRelease(targetMc);
    if (gh) { best = gh; source = "github-fallback"; }
  }
  let fmeta = null;
  if (bestModrinth) fmeta = pickPrimaryFile(bestModrinth);
  \<close>\<close>

definition task_cat :: "analysis \<Rightarrow> string \<Rightarrow> string" where
  "task_cat A pid =
     (case projectEntries A pid of None \<Rightarrow> ''mod''
      | Some e \<Rightarrow> if e_category e = [] then ''mod'' else e_category e)"

definition task_loader :: "analysis \<Rightarrow> string \<Rightarrow> string" where
  "task_loader A pid = getLoaderForProject (projectMap A pid) (task_cat A pid) (packLoader A)"

definition bestModrinth :: "analysis \<Rightarrow> string \<Rightarrow> version option" where
  "bestModrinth A pid =
     getBestTargetVersion (fetchModrinthVersions A pid (targetMc A) (task_loader A pid))"

definition analyze_task :: "analysis \<Rightarrow> string \<Rightarrow> nat \<times> (string + row)" where
  "analyze_task A pid =
     (let rep = (case projectEntries A pid of None \<Rightarrow> None | Some e \<Rightarrow> Some (anyVersion e));
          cat = task_cat A pid;
          proj = projectMap A pid;
          loader = task_loader A pid;
          best = map_option Primary (bestModrinth A pid);
          src = (if proj \<noteq> None then ''modrinth'' else ''none'');
          fmeta = (if bestModrinth A pid \<noteq> None then pickPrimaryFile (bestModrinth A pid) else None)
      in if bestModrinth A pid = None \<and> isCarpet proj pid
         then (1, (case fetchCarpetGitHubRelease (targetMc A) False (carpet_feed A) of
                     Inl e \<Rightarrow> Inl e
                   | Inr None \<Rightarrow> Inr (make_row (PACK_MC A) (targetMc A) pid cat proj rep loader best src fmeta)
                   | Inr (Some gh) \<Rightarrow>
                       Inr (make_row (PACK_MC A) (targetMc A) pid cat proj rep loader (Some (Fallback gh)) ''github-fallback'' fmeta)))
         else (0, Inr (make_row (PACK_MC A) (targetMc A) pid cat proj rep loader best src fmeta)))"

definition fallback_calls :: "analysis \<Rightarrow> string \<Rightarrow> nat" where
  "fallback_calls A pid = fst (analyze_task A pid)"

definition task_result :: "analysis \<Rightarrow> string \<Rightarrow> string + row" where
  "task_result A pid = snd (analyze_task A pid)"


section \<open>The task of the older single-file version of the page (second source file, 296-351)\<close>

text \<open>The second source file holds the script of the page before it was split up. Its
  \<open>mapLimitProgress\<close>, \<open>fetchCarpetGitHubRelease\<close>, \<open>pickPrimaryFile\<close> and the build are
  the same text; its task differs in how it asks the registry:
  \<^verbatim>\<open>
  function loaderForCategory(cat) {
    return (cat === "resourcepack" || cat === "shaderpack") ? "minecraft" : PACK_LOADER;
  }
  async function getProject(projectId) {
    const r = await fetch(`https://api.modrinth.com/v2/project/${projectId}`);
    if (!r.ok) return null;
    return r.json();
  }
  async function getBestTargetVersion(projectId, mc, loader) {
    ...
    const res = await fetch(url);
    if (!res.ok) throw new Error(`versions ${projectId}: ${res.status}`);
    const arr = await res.json();
    if (!Array.isArray(arr) || !arr.length) return null;
    ... (the same sort) ...
    return arr[0];
  }
  ...
  const loader = loaderForCategory(cat);
  const [proj, bestModrinth] = await Promise.all([
    getProject(pid), getBestTargetVersion(pid, TARGET_MC, loader) ]);
  let best = bestModrinth;
  let source = bestModrinth ? "modrinth" : "none";
  const isCarpet = (proj?.slug === "fabric-carpet") || (pid === "TQTTVgYE");
  if (!bestModrinth && isCarpet) {
    const gh = await fetchCarpetGitHubRelease(TARGET_MC);
    if (gh) { best = gh; source = "github-fallback"; }
  }
  \<close>
  Here both requests can reject the task. \<open>lg_getProject\<close> gives what \<open>getProject\<close>
  settles with (\<open>Inl\<close> a rejection); \<open>lg_versions\<close> the answer to the version request: it
  threw, a status that is not ok, or the parsed body (\<open>None\<close> when no array).
  \<open>Promise.all\<close> rejects with the rejection that comes first; \<open>lg_project_first\<close> says
  which one that is when both requests reject.\<close>

datatype versions_reply = VThrows string | VStatus string | VBody "version list option"

record legacy =
  lg_projectEntries :: "string \<rightharpoonup> entry"
  lg_PACK_LOADER :: string
  lg_TARGET_MC :: string
  lg_PACK_MC :: string
  lg_getProject :: "string \<Rightarrow> string + project option"
  lg_versions :: "string \<Rightarrow> string \<Rightarrow> string \<Rightarrow> versions_reply"
  lg_project_first :: bool
  lg_carpet_feed :: gh_response

definition loaderForCategory :: "string \<Rightarrow> string \<Rightarrow> string" where
  "loaderForCategory pl cat = (if cat = ''resourcepack'' \<or> cat = ''shaderpack'' then ''minecraft'' else pl)"

definition legacy_getBestTargetVersion :: "string \<Rightarrow> versions_reply \<Rightarrow> string + version option" where
  "legacy_getBestTargetVersion pid reply =
     (case reply of
        VThrows e \<Rightarrow> Inl e
      | VStatus st \<Rightarrow> Inl (''versions '' @ pid @ '': '' @ st)
      | VBody arr \<Rightarrow> Inr (getBestTargetVersion arr))"

definition legacy_cat :: "legacy \<Rightarrow> string \<Rightarrow> string" where
  "legacy_cat L pid =
     (case lg_projectEntries L pid of None \<Rightarrow> ''mod''
      | Some e \<Rightarrow> if e_category e = [] then ''mod'' else e_category e)"

definition legacy_best :: "legacy \<Rightarrow> string \<Rightarrow> string + version option" where
  "legacy_best L pid =
     legacy_getBestTargetVersion pid
       (lg_versions L pid (lg_TARGET_MC L) (loaderForCategory (lg_PACK_LOADER L) (legacy_cat L pid)))"

definition legacy_task :: "legacy \<Rightarrow> string \<Rightarrow> nat \<times> (string + row)" where
  "legacy_task L pid =
     (let rep = (case lg_projectEntries L pid of None \<Rightarrow> None | Some e \<Rightarrow> Some (anyVersion e));
          cat = legacy_cat L pid;
          loader = loaderForCategory (lg_PACK_LOADER L) cat
      in case (lg_getProject L pid, legacy_best L pid) of
           (Inl e1, Inl e2) \<Rightarrow> (0, Inl (if lg_project_first L then e1 else e2))
         | (Inl e1, Inr b) \<Rightarrow> (0, Inl e1)
         | (Inr p, Inl e2) \<Rightarrow> (0, Inl e2)
         | (Inr proj, Inr bestM) \<Rightarrow>
             (let best = map_option Primary bestM;
                  src = (if bestM \<noteq> None then ''modrinth'' else ''none'');
                  fmeta = (if bestM \<noteq> None then pickPrimaryFile bestM else None)
              in if bestM = None \<and> isCarpet proj pid
                 then (1, (case fetchCarpetGitHubRelease (lg_TARGET_MC L) False (lg_carpet_feed L) of
                             Inl e \<Rightarrow> Inl e
                           | Inr None \<Rightarrow>
                               Inr (make_row (lg_PACK_MC L) (lg_TARGET_MC L) pid cat proj rep loader best src fmeta)
                           | Inr (Some gh) \<Rightarrow>
                               Inr (make_row (lg_PACK_MC L) (lg_TARGET_MC L) pid cat proj rep loader
                                      (Some (Fallback gh)) ''github-fallback'' fmeta)))
                 else (0, Inr (make_row (lg_PACK_MC L) (lg_TARGET_MC L) pid cat proj rep loader best src fmeta))))"

section \<open>Collapsing the hashes to projects (script.js 275-316)\<close>

text \<open>
  \<^verbatim>\<open>
  for (const f of index.files || []) {
    const sha1 = f?.hashes?.sha1;
    if (sha1) { sha1s.push(sha1); sha1ToPath.set(sha1, f.path || ""); sha1ToFileObj.set(sha1, f); }
  }
  \<close>\<close>

definition sha1ToFileObj :: "manifest_file list \<Rightarrow> (string \<rightharpoonup> manifest_file)" where
  "sha1ToFileObj fs =
     fold (\<lambda>f m. if truthy (mf_sha1 f) then m(the (mf_sha1 f) \<mapsto> f) else m) fs Map.empty"

definition sha1ToPath :: "manifest_file list \<Rightarrow> (string \<rightharpoonup> string)" where
  "sha1ToPath fs =
     fold (\<lambda>f m. if truthy (mf_sha1 f) then m(the (mf_sha1 f) \<mapsto> or_default (mf_path f) []) else m)
       fs Map.empty"

definition startsWith :: "string \<Rightarrow> string \<Rightarrow> bool" where
  "startsWith s p = (take (length p) s = p)"

definition category_of_path :: "string \<Rightarrow> string" where
  "category_of_path pth =
     (if startsWith pth ''resourcepacks/'' then ''resourcepack''
      else if startsWith pth ''shaderpacks/'' then ''shaderpack''
      else ''mod'')"

text \<open>
  \<^verbatim>\<open>
  for (const [sha1, ver] of Object.entries(versionMap)) {
    if (!ver || !ver.project_id) continue;
    if (!projectEntries.has(ver.project_id)) {
      const path = sha1ToPath.get(sha1) || "";
      const category = ...;
      projectEntries.set(ver.project_id, { anyVersion: ver, exampleSha1: sha1, category });
      this.projectIdToOrigFile.set(ver.project_id, sha1ToFileObj.get(sha1));
    }
  }
  const projectIds = [...projectEntries.keys()];
  \<close>
  The state of the loop: the keys of \<open>projectEntries\<close> in insertion order, that map, and
  \<open>projectIdToOrigFile\<close> (a key set to \<open>undefined\<close> is a key without a file).\<close>

record collapsed =
  projectIds :: "string list"
  c_entries :: "string \<rightharpoonup> entry"
  c_origFile :: "string \<rightharpoonup> manifest_file"

fun collapse :: "manifest_file list \<Rightarrow> (string \<times> version option) list \<Rightarrow> collapsed \<Rightarrow> collapsed" where
  "collapse fs [] st = st"
| "collapse fs ((sha1, ver) # rest) st =
     (case ver of
        None \<Rightarrow> collapse fs rest st
      | Some v \<Rightarrow>
          (if \<not> truthy (v_project_id v) then collapse fs rest st
           else (let pid = the (v_project_id v)
                 in if c_entries st pid \<noteq> None then collapse fs rest st
                    else collapse fs rest
                      \<lparr> projectIds = projectIds st @ [pid],
                        c_entries = (c_entries st)(pid \<mapsto>
                          \<lparr> anyVersion = v, exampleSha1 = sha1,
                            e_category = category_of_path (or_default (sha1ToPath fs sha1) []) \<rparr>),
                        c_origFile = (c_origFile st)(pid := sha1ToFileObj fs sha1) \<rparr>)))"

definition collapse_all :: "manifest_file list \<Rightarrow> (string \<times> version option) list \<Rightarrow> collapsed" where
  "collapse_all fs versionMap =
     collapse fs versionMap \<lparr> projectIds = [], c_entries = Map.empty, c_origFile = Map.empty \<rparr>"

section \<open>The loader pin: getRecommendedLoaderVersion (script.js 1259-1274)\<close>

text \<open>
  \<^verbatim>\<open>
  if (loaderName !== "fabric") return null;
  try {
    const res = await fetch(...);
    if (!res.ok) throw new Error(`fabric meta ${res.status}`);
    const arr = await res.json();
    const stable = Array.isArray(arr) ? arr.find(x => x?.loader?.stable) : null;
    const pick = stable || (Array.isArray(arr) ? arr[0] : null);
    const ver = pick?.loader?.version || null;
    return ver;
  } catch (e) { console.warn("Fabric Meta lookup failed:", e); return null; }
  \<close>
  The answer of the meta service: the request or the parsing threw, a status that is not
  ok, or the parsed body (\<open>None\<close> when it is no array). Of an element only
  \<open>x?.loader?.stable\<close> (its truth value) and \<open>x?.loader?.version\<close> are read.\<close>

record loader_entry =
  le_stable :: bool
  le_version :: "string option"

datatype meta_response = MetaThrows | MetaNotOk | MetaBody "loader_entry list option"

definition getRecommendedLoaderVersion :: "string \<Rightarrow> meta_response \<Rightarrow> string option" where
  "getRecommendedLoaderVersion loaderName res =
     (if loaderName \<noteq> ''fabric'' then None
      else (case res of
              MetaThrows \<Rightarrow> None
            | MetaNotOk \<Rightarrow> None
            | MetaBody arr \<Rightarrow>
                (let stable = (case arr of None \<Rightarrow> None | Some xs \<Rightarrow> find le_stable xs);
                     pick = (case stable of
                               Some x \<Rightarrow> Some x
                             | None \<Rightarrow> (case arr of Some (x # xs) \<Rightarrow> Some x | _ \<Rightarrow> None))
                 in or_null (case pick of None \<Rightarrow> None | Some x \<Rightarrow> le_version x))))"

section \<open>Manifest Rebuilder: Modpack.build (script.js 442-543)\<close>

text \<open>
  \<^verbatim>\<open>
  function inferPathFromCategory(row) {
    if (row.category === "resourcepack") return `resourcepacks/${(row.slug || "resourcepack")}.zip`;
    if (row.category === "shaderpack")   return `shaderpacks/${(row.slug || "shaderpack")}.zip`;
    return `mods/${(row.slug || "mod")}.jar`;
  }
  \<close>\<close>

definition inferPathFromCategory :: "row \<Rightarrow> string" where
  "inferPathFromCategory r =
     (if category r = ''resourcepack'' then ''resourcepacks/'' @ or_default (slug r) ''resourcepack'' @ ''.zip''
      else if category r = ''shaderpack'' then ''shaderpacks/'' @ or_default (slug r) ''shaderpack'' @ ''.zip''
      else ''mods/'' @ or_default (slug r) ''mod'' @ ''.jar'')"

text \<open>The state of the \<open>Modpack\<close> object that \<open>build\<close> reads. Of the archive only its
  presence is modelled: copying the overrides into the new archive and naming the new index
  have no part in what follows.\<close>

record modpack =
  mp_name :: string
  mp_targetMc :: string
  selectedLoader :: string
  mp_index :: "index option"
  mp_zip :: bool
  rows :: "row list"
  projectIdToOrigFile :: "string \<rightharpoonup> manifest_file"

definition hasData :: "modpack \<Rightarrow> bool" where
  "hasData m = (length (rows m) > 0 \<and> mp_index m \<noteq> None \<and> mp_zip m)"

text \<open>The two filters of \<open>build\<close>:
  \<^verbatim>\<open>
  const includable = this.rows.filter(r =>
    r.target_available && r.source === "modrinth" &&
    r.target_file_sha512 && r.target_file_sha1 && r.target_file_size && r.target_file_url);
  const skipped = this.rows.filter(r =>
    r.target_available &&
    (r.source !== "modrinth" || !(r.target_file_sha512 && r.target_file_sha1 &&
                                  r.target_file_size && r.target_file_url)));
  \<close>\<close>

definition has_file_meta :: "row \<Rightarrow> bool" where
  "has_file_meta r =
     (truthy (target_file_sha512 r) \<and> truthy (target_file_sha1 r) \<and>
      truthy_num (target_file_size r) \<and> truthy (target_file_url r))"

definition includable :: "row \<Rightarrow> bool" where
  "includable r = (target_available r \<and> source r = ''modrinth'' \<and> has_file_meta r)"

definition is_skipped :: "row \<Rightarrow> bool" where
  "is_skipped r = (target_available r \<and> (source r \<noteq> ''modrinth'' \<or> \<not> has_file_meta r))"

text \<open>A record of the new file list:
  \<^verbatim>\<open>
  const of = this.projectIdToOrigFile.get(row.project_id) || {};
  const path = of.path || inferPathFromCategory(row);
  const env  = of.env || { client: "required", server: "required" };
  fileRecords.push({ path, hashes: { sha512: row.target_file_sha512, sha1: row.target_file_sha1 },
                     env, downloads: [row.target_file_url], fileSize: row.target_file_size });
  \<close>\<close>

record file_record =
  fr_path :: string
  fr_sha512 :: "string option"
  fr_sha1 :: "string option"
  fr_env :: env_req
  fr_downloads :: "string option list"
  fr_fileSize :: "rat option"

definition row_path :: "(string \<rightharpoonup> manifest_file) \<Rightarrow> row \<Rightarrow> string" where
  "row_path orig r =
     (case (case orig (project_id r) of None \<Rightarrow> None | Some f \<Rightarrow> mf_path f) of
        None \<Rightarrow> inferPathFromCategory r
      | Some p \<Rightarrow> if p = [] then inferPathFromCategory r else p)"

definition fileRecord :: "(string \<rightharpoonup> manifest_file) \<Rightarrow> row \<Rightarrow> file_record" where
  "fileRecord orig r =
     \<lparr> fr_path = row_path orig r,
       fr_sha512 = target_file_sha512 r,
       fr_sha1 = target_file_sha1 r,
       fr_env = (case (case orig (project_id r) of None \<Rightarrow> None | Some f \<Rightarrow> mf_env f) of
                   None \<Rightarrow> \<lparr> client = ''required'', server = ''required'' \<rparr>
                 | Some e \<Rightarrow> e),
       fr_downloads = [target_file_url r],
       fr_fileSize = target_file_size r \<rparr>"

definition fileRecords :: "(string \<rightharpoonup> manifest_file) \<Rightarrow> row list \<Rightarrow> file_record list" where
  "fileRecords orig rs = map (fileRecord orig) (filter includable rs)"

text \<open>The name a skipped row is reported under: \<open>r.name || r.slug || r.project_id\<close>.\<close>

definition report_name :: "row \<Rightarrow> string" where
  "report_name r = (if name r \<noteq> [] then name r else or_default (slug r) (project_id r))"

text \<open>What \<open>build\<close> produces: the dependencies and the files of the new index, the note on
  the loader, the number of calls of \<open>getRecommendedLoaderVersion\<close>, the skipped rows and
  the names reported for them. The only way out before that is the guard
  \<open>if (!this.hasData()) { alert("Run a check first."); return; }\<close>.
  \<^verbatim>\<open>
  newIndex.dependencies = Object.assign({}, newIndex.dependencies, { minecraft: this.targetMc });
  let loaderNote = "";
  if (this.selectedLoader === "fabric") {
    const rec = await getRecommendedLoaderVersion(this.targetMc, "fabric");
    if (rec) {
      newIndex.dependencies["fabric-loader"] = rec;
      loaderNote = `Fabric Loader set to ${rec}.`;
    } else {
      if (newIndex.dependencies["fabric-loader"]) {
        loaderNote = `Kept existing Fabric Loader ${newIndex.dependencies["fabric-loader"]} (meta lookup failed).`;
      } else {
        loaderNote = `Fabric Loader not set (meta lookup failed).`;
      }
    }
  }
  \<close>\<close>

datatype build_error = NoData

record built =
  b_dependencies :: "string \<rightharpoonup> string"
  b_files :: "file_record list"
  b_loaderNote :: string
  b_lookups :: nat
  b_skipped :: "row list"
  b_names :: "string list"

definition build :: "modpack \<Rightarrow> meta_response \<Rightarrow> build_error + built" where
  "build m meta =
     (case mp_index m of
        None \<Rightarrow> Inl NoData
      | Some ix \<Rightarrow>
          (if \<not> hasData m then Inl NoData
           else
             (let deps = (ix_dependencies ix)(''minecraft'' \<mapsto> mp_targetMc m);
                  rec = (if selectedLoader m = ''fabric''
                         then getRecommendedLoaderVersion ''fabric'' meta else None);
                  deps' = (if selectedLoader m = ''fabric'' \<and> truthy rec
                           then deps(''fabric-loader'' \<mapsto> the rec) else deps);
                  note = (if selectedLoader m \<noteq> ''fabric'' then []
                          else if truthy rec then ''Fabric Loader set to '' @ the rec @ ''.''
                          else if truthy (deps ''fabric-loader'')
                            then ''Kept existing Fabric Loader '' @ the (deps ''fabric-loader'') @ '' (meta lookup failed).''
                          else ''Fabric Loader not set (meta lookup failed).'');
                  skipped = filter is_skipped (rows m)
              in Inr \<lparr> b_dependencies = deps',
                       b_files = fileRecords (projectIdToOrigFile m) (rows m),
                       b_loaderNote = note,
                       b_lookups = (if selectedLoader m = ''fabric'' then 1 else 0),
                       b_skipped = skipped,
                       b_names = map report_name skipped \<rparr>)))"


section \<open>The invariant of the scheduler\<close>

text \<open>\<open>outs c d\<close>: the first \<open>d\<close> tasks were fulfilled and \<open>out\<close> holds their values at their
  indices and holes elsewhere. \<open>counts c d\<close>: \<open>done\<close> is \<open>d\<close> and \<open>onTick\<close> was called with
  \<open>(1, n)\<close>, ..., \<open>(d, n)\<close>. \<open>sched_inv\<close> lists, for each place of the main coroutine, what
  the variables hold there; \<open>todo\<close> bounds the steps that remain.\<close>

definition outs :: "'a list \<Rightarrow> ('a \<Rightarrow> 'e + 'b) \<Rightarrow> ('b, 'e) sched \<Rightarrow> nat \<Rightarrow> bool" where
  "outs items fn c d =
     (\<exists>vs. sequential fn (take d items) = Inr vs \<and>
           s_out c = map Some vs @ replicate (length items - d) None)"

definition counts :: "'a list \<Rightarrow> ('b, 'e) sched \<Rightarrow> nat \<Rightarrow> bool" where
  "counts items c d = (s_done c = d \<and> s_ticks c = map (\<lambda>j. (Suc j, length items)) [0 ..< d])"

definition sched_inv :: "'a list \<Rightarrow> ('a \<Rightarrow> 'e + 'b) \<Rightarrow> ('b, 'e) sched \<Rightarrow> bool" where
  "sched_inv items fn c =
     (s_i c \<le> length items \<and> s_calls c = [0 ..< s_i c] \<and>
      (case s_pc c of
         Outer \<Rightarrow> s_running c = [] \<and> outs items fn c (s_i c) \<and> counts items c (s_i c)
       | Inner \<Rightarrow> s_running c = [] \<and> outs items fn c (s_i c) \<and> counts items c (s_i c)
       | AwaitRun j \<Rightarrow> s_i c = Suc j \<and> s_running c = [j] \<and> outs items fn c j \<and> counts items c j
       | AwaitRace \<Rightarrow> False
       | Returned \<Rightarrow> s_i c = length items \<and> s_running c = [] \<and>
                    outs items fn c (length items) \<and> counts items c (length items)
       | Rejected e \<Rightarrow> s_running c = [] \<and> 0 < s_i c \<and> fn (items ! (s_i c - 1)) = Inl e \<and>
                    outs items fn c (s_i c - 1) \<and> counts items c (s_i c)))"

definition todo :: "'a list \<Rightarrow> ('b, 'e) sched \<Rightarrow> nat" where
  "todo items c =
     (case s_pc c of
        Outer \<Rightarrow> (if s_i c < length items then 2 * (length items - s_i c) + 3 else 1)
      | Inner \<Rightarrow> 2 * (length items - s_i c) + 2
      | AwaitRun j \<Rightarrow> 2 * (length items - s_i c) + 3
      | AwaitRace \<Rightarrow> 0
      | Returned \<Rightarrow> 0
      | Rejected e \<Rightarrow> 0)"


section \<open>Auxiliary notions of the proofs\<close>

text \<open>The head of the sorted array, computed directly: the candidate kept so far gives way
  to an earlier one that is at least as good.\<close>

fun first_best :: "version list \<Rightarrow> version option" where
  "first_best [] = None"
| "first_best (x # xs) =
     (case first_best xs of None \<Rightarrow> Some x | Some h \<Rightarrow> if better_eq x h then Some x else Some h)"



text \<open>The invariant of the loop that collapses the hashes to projects, \<open>K\<close> being the
  hashes seen so far: the keys are distinct and are the projects entered, a project's
  original file is the file recorded for its example hash, and two projects never share
  an example hash.\<close>

definition collapse_inv :: "manifest_file list \<Rightarrow> collapsed \<Rightarrow> string set \<Rightarrow> bool" where
  "collapse_inv fs st K =
     (distinct (projectIds st) \<and> set (projectIds st) = dom (c_entries st) \<and>
      dom (c_origFile st) \<subseteq> dom (c_entries st) \<and>
      (\<forall>pid e. c_entries st pid = Some e \<longrightarrow>
          exampleSha1 e \<in> K \<and> c_origFile st pid = sha1ToFileObj fs (exampleSha1 e)) \<and>
      (\<forall>pid pid' e e'. c_entries st pid = Some e \<longrightarrow> c_entries st pid' = Some e' \<longrightarrow> pid \<noteq> pid' \<longrightarrow>
          exampleSha1 e \<noteq> exampleSha1 e'))"


section \<open>Concrete inputs\<close>

text \<open>An oracle that always settles the oldest pending promise, and a task that rejects
  for the identity \<open>0\<close> and is fulfilled with ten times the identity otherwise.\<close>

definition first_pending :: "nat \<Rightarrow> nat" where
  "first_pending k = 0"

definition demo_task :: "nat \<Rightarrow> string + nat" where
  "demo_task x = (if x = 0 then Inl ''boom'' else Inr (10 * x))"


text \<open>A version of a given type and publish time; when \<open>withFiles\<close> is set it lists two
  files with full metadata, the second one flagged primary, and otherwise no file.\<close>

definition demo_file :: "string \<Rightarrow> bool \<Rightarrow> vfile" where
  "demo_file nm prim =
     \<lparr> f_sha1 = Some (''sha1-'' @ nm), f_sha512 = Some (''sha512-'' @ nm), f_size = Some 1024,
       f_url = Some (''https://cdn.example/'' @ nm), f_filename = Some nm, f_primary = prim \<rparr>"

definition demo_version :: "string \<Rightarrow> string \<Rightarrow> int \<Rightarrow> bool \<Rightarrow> version" where
  "demo_version num ty d withFiles =
     \<lparr> v_project_id = Some ''P1'', v_name = Some num, version_number = Some num,
       version_type = ty, date_published = d,
       files = (if withFiles then Some [demo_file ''extra.jar'' False, demo_file ''main.jar'' True] else Some []) \<rparr>"

text \<open>A small world: four projects of the registry, of which \<open>P1\<close> and \<open>P4\<close> have a
  complete version for the target, \<open>P3\<close> a version without files and \<open>P2\<close> none; the
  allow-listed project has none either, and the release feed lists a draft, a prerelease,
  a release for another game version and two matching releases, the older one first.\<close>

definition demo_versions :: "string \<Rightarrow> string \<Rightarrow> string \<Rightarrow> version list option" where
  "demo_versions pid mc loader =
     (if pid = ''P1'' then Some [demo_version ''1.0'' ''release'' 10 True, demo_version ''1.1'' ''beta'' 20 True]
      else if pid = ''P3'' then Some [demo_version ''2.0'' ''release'' 5 False]
      else if pid = ''P4'' then Some [demo_version ''3.0'' ''beta'' 7 True]
      else Some [])"

definition demo_project :: "string \<Rightarrow> project" where
  "demo_project sl =
     \<lparr> p_slug = Some sl, p_title = Some sl, p_project_type = Some ''mod'', p_loaders = Some [''fabric''] \<rparr>"

definition demo_asset :: "string \<Rightarrow> asset" where
  "demo_asset file = \<lparr> a_name = file, browser_download_url = Some (''https://github.example/'' @ file) \<rparr>"

definition demo_release :: "bool \<Rightarrow> bool \<Rightarrow> string \<Rightarrow> string \<Rightarrow> string \<Rightarrow> release" where
  "demo_release d p tag day file =
     \<lparr> draft = d, prerelease = p,
       assets = Some [demo_asset file],
       tag_name = Some tag, published_at = Some day, created_at = Some day \<rparr>"

definition demo_feed :: "release list" where
  "demo_feed =
     [demo_release True False ''d1'' ''2025-03-01'' ''fabric-carpet-1.21.4-9.9.jar'',
      demo_release False True ''p1'' ''2025-02-01'' ''fabric-carpet-1.21.4-9.8.jar'',
      demo_release False False ''v3'' ''2025-01-20'' ''fabric-carpet-1.21.40-1.5.jar'',
      demo_release False False ''v2'' ''2024-12-01'' ''Fabric-Carpet-1.21.4-1.4.jar'',
      demo_release False False ''v1'' ''2025-01-10'' ''fabric-carpet-1.21.4-1.3.jar'']"

definition demo_analysis :: analysis where
  "demo_analysis =
     \<lparr> projectEntries = Map.empty,
       projectMap = [''P1'' \<mapsto> demo_project ''sodium'', ''P2'' \<mapsto> demo_project ''phosphor'',
                     ''P3'' \<mapsto> demo_project ''iris'', ''P4'' \<mapsto> demo_project ''lithium'',
                     ''TQTTVgYE'' \<mapsto> demo_project ''fabric-carpet''],
       packLoader = ''fabric'', targetMc = ''1.21.4'', PACK_MC = ''1.20.1'',
       fetchModrinthVersions = demo_versions, carpet_feed = GhReleases demo_feed \<rparr>"

definition demo_row :: "string \<Rightarrow> row" where
  "demo_row pid = projr (task_result demo_analysis pid)"

definition demo_manifest_file :: "string \<Rightarrow> string \<Rightarrow> manifest_file" where
  "demo_manifest_file pth h =
     \<lparr> mf_path = Some pth, mf_sha1 = Some h, mf_sha512 = Some (h @ h), mf_env = None,
       mf_downloads = [], mf_fileSize = Some 1 \<rparr>"

definition demo_index :: index where
  "demo_index =
     \<lparr> ix_name = Some ''Demo'',
       ix_dependencies = [''minecraft'' \<mapsto> ''1.20.1'', ''fabric-loader'' \<mapsto> ''0.15.0''],
       ix_files = [demo_manifest_file ''mods/sodium.jar'' ''h1'', demo_manifest_file ''mods/carpet.jar'' ''h2'',
                   demo_manifest_file ''mods/lithium.jar'' ''h4''] \<rparr>"

definition demo_pack :: modpack where
  "demo_pack =
     \<lparr> mp_name = ''Demo'', mp_targetMc = ''1.21.4'', selectedLoader = ''fabric'',
       mp_index = Some demo_index, mp_zip = True,
       rows = [demo_row ''P1'', demo_row ''TQTTVgYE'', demo_row ''P4''],
       projectIdToOrigFile = [''P1'' \<mapsto> demo_manifest_file ''mods/sodium.jar'' ''h1'',
                              ''TQTTVgYE'' \<mapsto> demo_manifest_file ''mods/carpet.jar'' ''h2'',
                              ''P4'' \<mapsto> demo_manifest_file ''mods/lithium.jar'' ''h4''] \<rparr>"


definition demo_meta :: meta_response where
  "demo_meta = MetaBody (Some [\<lparr> le_stable = False, le_version = Some ''0.16.1'' \<rparr>,
                               \<lparr> le_stable = True, le_version = Some ''0.16.0'' \<rparr>])"

definition quilt_pack :: modpack where
  "quilt_pack = demo_pack\<lparr> selectedLoader := ''quilt'' \<rparr>"

text \<open>A pack for the Quilt loader whose manifest pins \<open>quilt-loader\<close>.\<close>

definition quilt_pinned_pack :: modpack where
  "quilt_pinned_pack =
     quilt_pack\<lparr> mp_index := Some (demo_index\<lparr> ix_dependencies :=
        [''minecraft'' \<mapsto> ''1.20.1'', ''quilt-loader'' \<mapsto> ''0.26.0''] \<rparr>) \<rparr>"

text \<open>A manifest that declares two files under one path, the answer of the hash service
  for it, and the pack as \<open>analyze\<close> leaves it.\<close>

definition clash_files :: "manifest_file list" where
  "clash_files = [demo_manifest_file ''mods/a.jar'' ''h1'', demo_manifest_file ''mods/a.jar'' ''h4'']"

definition clash_versionMap :: "(string \<times> version option) list" where
  "clash_versionMap =
     [(''h1'', Some ((demo_version ''0.1'' ''release'' 1 True)\<lparr> v_project_id := Some ''P1'' \<rparr>)),
      (''h4'', Some ((demo_version ''0.4'' ''release'' 4 True)\<lparr> v_project_id := Some ''P4'' \<rparr>))]"

definition clash_pack :: modpack where
  "clash_pack =
     demo_pack\<lparr> rows := [demo_row ''P1'', demo_row ''P4''],
                projectIdToOrigFile := c_origFile (collapse_all clash_files clash_versionMap) \<rparr>"

text \<open>Three available rows, one of fallback origin and one whose version lists no file.\<close>

definition gap_pack :: modpack where
  "gap_pack = demo_pack\<lparr> rows := [demo_row ''P1'', demo_row ''TQTTVgYE'', demo_row ''P3''] \<rparr>"

definition demo_versionMap :: "(string \<times> version option) list" where
  "demo_versionMap =
     [(''h1'', Some ((demo_version ''0.1'' ''release'' 1 True)\<lparr> v_project_id := Some ''P1'' \<rparr>)),
      (''h2'', Some ((demo_version ''0.2'' ''release'' 2 True)\<lparr> v_project_id := Some ''TQTTVgYE'' \<rparr>)),
      (''h4'', Some ((demo_version ''0.4'' ''release'' 4 True)\<lparr> v_project_id := Some ''P4'' \<rparr>))]"

definition piped_pack :: modpack where
  "piped_pack =
     demo_pack\<lparr> projectIdToOrigFile := c_origFile (collapse_all (ix_files demo_index) demo_versionMap) \<rparr>"

text \<open>The same world as the older version of the page asks for it: the metadata request
  for \<open>P2\<close> has a status that is not ok.\<close>

definition demo_legacy :: legacy where
  "demo_legacy =
     \<lparr> lg_projectEntries = Map.empty, lg_PACK_LOADER = ''fabric'', lg_TARGET_MC = ''1.21.4'',
       lg_PACK_MC = ''1.20.1'',
       lg_getProject = (\<lambda>pid. if pid = ''P2'' then Inr None else Inr (projectMap demo_analysis pid)),
       lg_versions = (\<lambda>pid mc loader. VBody (demo_versions pid mc loader)),
       lg_project_first = True, lg_carpet_feed = GhReleases demo_feed \<rparr>"

chapter \<open>The claims\<close>

section \<open>The scheduler\<close>

lemma sequential_snoc:
  "sequential fn (xs @ [x]) =
     (case sequential fn xs of
        Inl e \<Rightarrow> Inl e
      | Inr vs \<Rightarrow> (case fn x of Inl e \<Rightarrow> Inl e | Inr v \<Rightarrow> Inr (vs @ [v])))"
  by (induction xs) (auto split: sum.splits)

lemma sequential_append:
  "sequential fn (xs @ ys) =
     (case sequential fn xs of
        Inl e \<Rightarrow> Inl e
      | Inr vs \<Rightarrow> (case sequential fn ys of Inl e \<Rightarrow> Inl e | Inr ws \<Rightarrow> Inr (vs @ ws)))"
  by (induction xs) (auto split: sum.splits)

lemma sequential_length: "sequential fn xs = Inr vs \<Longrightarrow> length vs = length xs"
  by (induction xs arbitrary: vs) (auto split: sum.splits)

lemma sequential_nth:
  "sequential fn xs = Inr vs \<Longrightarrow> j < length xs \<Longrightarrow> fn (xs ! j) = Inr (vs ! j)"
proof (induction xs arbitrary: vs j)
  case Nil
  then show ?case by simp
next
  case (Cons x xs)
  then show ?case by (cases j) (auto split: sum.splits)
qed

lemma sched_inv_init: "sched_inv items fn (init_sched items)"
  by (simp add: sched_inv_def init_sched_def outs_def counts_def)

lemma outs_settle_ok:
  assumes "outs items fn c j" and "j < length items" and "fn (items ! j) = Inr v"
  shows "outs items fn (c\<lparr> s_out := (s_out c)[j := Some v] \<rparr>) (Suc j)"
proof -
  from assms(1) obtain vs where vs: "sequential fn (take j items) = Inr vs"
    and out: "s_out c = map Some vs @ replicate (length items - j) None"
    by (auto simp: outs_def)
  have len: "length vs = j" using sequential_length[OF vs] assms(2) by simp
  have "sequential fn (take (Suc j) items) = Inr (vs @ [v])"
    using vs assms(2,3) by (simp add: take_Suc_conv_app_nth sequential_snoc)
  moreover have "(s_out c)[j := Some v] = map Some (vs @ [v]) @ replicate (length items - Suc j) None"
  proof -
    have "length items - j = Suc (length items - Suc j)" using assms(2) by simp
    then show ?thesis using out len by (simp add: list_update_append)
  qed
  ultimately show ?thesis by (simp add: outs_def)
qed

lemma sched_inv_step:
  assumes "sched_inv items fn c"
  shows "sched_inv items fn (step items limit fn pick c)"
proof (cases "s_pc c")
  case Outer
  with assms show ?thesis
    by (auto simp: sched_inv_def step_def outs_def counts_def)
next
  case Inner
  with assms show ?thesis
    by (auto simp: sched_inv_def step_def outs_def counts_def)
next
  case (AwaitRun j)
  with assms have i: "s_i c = Suc j" and run: "s_running c = [j]" and o: "outs items fn c j"
    and cn: "counts items c j" and le: "s_i c \<le> length items" and calls: "s_calls c = [0 ..< s_i c]"
    by (auto simp: sched_inv_def)
  have j: "j < length items" using i le by simp
  have st: "step items limit fn pick c = settle items fn j c"
    using AwaitRun run by (simp add: step_def)
  show ?thesis
  proof (cases "fn (items ! j)")
    case (Inl e)
    then show ?thesis
      using st AwaitRun i run o cn le calls
      by (auto simp: sched_inv_def settle_def outs_def counts_def)
  next
    case (Inr v)
    have "outs items fn (c\<lparr> s_out := (s_out c)[j := Some v] \<rparr>) (Suc j)"
      by (rule outs_settle_ok[OF o j Inr])
    then show ?thesis
      using st AwaitRun i run cn le calls Inr
      by (auto simp: sched_inv_def settle_def outs_def counts_def)
  qed
next
  case AwaitRace
  with assms show ?thesis by (simp add: sched_inv_def)
next
  case Returned
  with assms show ?thesis by (simp add: step_def)
next
  case (Rejected e)
  with assms show ?thesis by (simp add: step_def)
qed

lemma sched_inv_exec:
  "sched_inv items fn c \<Longrightarrow> sched_inv items fn (exec k items limit fn pick c)"
  by (induction k arbitrary: c) (auto intro: sched_inv_step)

lemma todo_step:
  assumes "sched_inv items fn c" and "0 < limit" and "todo items c \<le> Suc m"
  shows "todo items (step items limit fn pick c) \<le> m"
  using assms
  by (cases "s_pc c"; cases "fn (items ! (s_i c - 1))")
     (auto simp: sched_inv_def step_def todo_def settle_def split: if_splits)

lemma todo_exec:
  "sched_inv items fn c \<Longrightarrow> 0 < limit \<Longrightarrow> todo items c \<le> k \<Longrightarrow>
   todo items (exec k items limit fn pick c) = 0"
proof (induction k arbitrary: c)
  case 0
  then show ?case by simp
next
  case (Suc k)
  then show ?case using todo_step[OF Suc.prems(1,2,3)] sched_inv_step[OF Suc.prems(1)] by simp
qed

lemma todo_init: "todo items (init_sched items) \<le> 2 * length items + 3"
  by (simp add: todo_def init_sched_def)


lemma terminal_cases:
  assumes "sched_inv items fn c" and "todo items c = 0"
  shows "s_pc c = Returned \<or> (\<exists>e. s_pc c = Rejected e)"
  using assms by (cases "s_pc c") (auto simp: sched_inv_def todo_def split: if_splits)

lemma final_state:
  assumes "0 < limit" and "2 * length items + 3 \<le> k"
  shows "sched_inv items fn (exec k items limit fn pick (init_sched items))"
    and "s_pc (exec k items limit fn pick (init_sched items)) = Returned \<or>
         (\<exists>e. s_pc (exec k items limit fn pick (init_sched items)) = Rejected e)"
proof -
  show inv: "sched_inv items fn (exec k items limit fn pick (init_sched items))"
    by (rule sched_inv_exec[OF sched_inv_init])
  have "todo items (exec k items limit fn pick (init_sched items)) = 0"
    by (rule todo_exec[OF sched_inv_init assms(1) le_trans[OF todo_init assms(2)]])
  then show "s_pc (exec k items limit fn pick (init_sched items)) = Returned \<or>
         (\<exists>e. s_pc (exec k items limit fn pick (init_sched items)) = Rejected e)"
    using terminal_cases[OF inv] by simp
qed

lemma sequential_fail_at:
  assumes "sequential fn (take j xs) = Inr vs" and "j < length xs" and "fn (xs ! j) = Inl e"
  shows "sequential fn xs = Inl e"
proof -
  have "xs = take j xs @ (xs ! j) # drop (Suc j) xs"
    using assms(2) by (simp add: id_take_nth_drop)
  then have "sequential fn xs = sequential fn (take j xs @ (xs ! j) # drop (Suc j) xs)" by simp
  also have "\<dots> = Inl e" using assms(1,3) by (simp add: sequential_append)
  finally show ?thesis .
qed

lemma outcome_sequential:
  assumes "0 < limit" and "2 * length items + 3 \<le> k"
  shows "mapLimitProgress k items limit fn pick =
           Some (case sequential fn items of Inl e \<Rightarrow> Inl e | Inr vs \<Rightarrow> Inr (map Some vs))"
proof -
  define c where "c = exec k items limit fn pick (init_sched items)"
  have inv: "sched_inv items fn c" and fin: "s_pc c = Returned \<or> (\<exists>e. s_pc c = Rejected e)"
    unfolding c_def using final_state[OF assms] by blast+
  from fin show ?thesis
  proof
    assume r: "s_pc c = Returned"
    with inv obtain vs where "sequential fn items = Inr vs" "s_out c = map Some vs"
      by (auto simp: sched_inv_def outs_def)
    then show ?thesis using r by (simp add: mapLimitProgress_def outcome_def c_def[symmetric])
  next
    assume "\<exists>e. s_pc c = Rejected e"
    then obtain e where r: "s_pc c = Rejected e" ..
    with inv obtain vs where "sequential fn (take (s_i c - 1) items) = Inr vs"
      and "fn (items ! (s_i c - 1)) = Inl e" and "0 < s_i c" and "s_i c \<le> length items"
      by (auto simp: sched_inv_def outs_def)
    then have "sequential fn items = Inl e"
      by (intro sequential_fail_at[where j = "s_i c - 1"]) auto
    then show ?thesis using r by (simp add: mapLimitProgress_def outcome_def c_def[symmetric])
  qed
qed


text \<open>With the limit 0 and a non-empty list the inner loop \<open>while (running.size >= limit)\<close>
  is entered with nothing to wait for, \<open>Promise.race\<close> of no promise never settles, and the
  call never settles either: no task is ever started. The page only calls the scheduler with
  \<open>MAX_CONCURRENCY\<close>, which is 6.\<close>

lemma zero_limit_spins:
  assumes "items \<noteq> []"
  shows "mapLimitProgress k items 0 fn pick = None \<and>
         s_calls (exec k items 0 fn pick (init_sched items)) = []"
proof -
  have "(s_pc c = Outer \<or> s_pc c = Inner) \<and> s_i c = 0 \<and> s_running c = [] \<and> s_calls c = [] \<Longrightarrow>
        (s_pc (exec k items 0 fn pick c) = Outer \<or> s_pc (exec k items 0 fn pick c) = Inner) \<and>
        s_calls (exec k items 0 fn pick c) = []" for c
  proof (induction k arbitrary: c)
    case 0
    then show ?case by simp
  next
    case (Suc k)
    have "(s_pc (step items 0 fn pick c) = Outer \<or> s_pc (step items 0 fn pick c) = Inner) \<and>
          s_i (step items 0 fn pick c) = 0 \<and> s_running (step items 0 fn pick c) = [] \<and>
          s_calls (step items 0 fn pick c) = []"
      using Suc.prems assms by (auto simp: step_def)
    from Suc.IH[OF this] show ?case by simp
  qed
  from this[of "init_sched items"] show ?thesis
    by (auto simp: mapLimitProgress_def outcome_def init_sched_def)
qed

text \<open>C1. For every list of identities, every task function and every order in which the
  pending promises settle, once the call has settled (which it has after \<open>2 n + 3\<close> steps
  of the system when the limit is positive) its outcome is the outcome of running the tasks
  one after the other in input order; a returned array has the length of the input and
  holds at every index the value of the task of the identity at that index.\<close>

theorem mapLimitProgress_input_order:
  assumes "0 < limit" and "2 * length items + 3 \<le> k"
  shows "mapLimitProgress k items limit fn pick =
           Some (case sequential fn items of Inl e \<Rightarrow> Inl e | Inr vs \<Rightarrow> Inr (map Some vs))
         \<and> (\<forall>out j. mapLimitProgress k items limit fn pick = Some (Inr out) \<longrightarrow> j < length items \<longrightarrow>
               length out = length items \<and> map_option Inr (out ! j) = Some (fn (items ! j)))"
proof (intro conjI allI impI)
  show eq: "mapLimitProgress k items limit fn pick =
           Some (case sequential fn items of Inl e \<Rightarrow> Inl e | Inr vs \<Rightarrow> Inr (map Some vs))"
    by (rule outcome_sequential[OF assms])
  fix out j
  assume o: "mapLimitProgress k items limit fn pick = Some (Inr out)" and j: "j < length items"
  from o eq obtain vs where vs: "sequential fn items = Inr vs" and out: "out = map Some vs"
    by (auto split: sum.splits)
  have len: "length vs = length items" by (rule sequential_length[OF vs])
  then show "length out = length items" using out by simp
  show "map_option Inr (out ! j) = Some (fn (items ! j))"
    using sequential_nth[OF vs j] out len j by simp
qed

theorem mapLimitProgress_input_order_witness:
  "0 < MAX_CONCURRENCY \<and> 2 * length [3, 1, 2 :: nat] + 3 \<le> (9 :: nat) \<and>
   mapLimitProgress 9 [3, 1, 2] MAX_CONCURRENCY demo_task first_pending = Some (Inr [Some 30, Some 10, Some 20])"
  using mapLimitProgress_input_order[of MAX_CONCURRENCY "[3, 1, 2]" 9 demo_task first_pending]
  by (simp add: MAX_CONCURRENCY_def demo_task_def)

lemma exec_Suc_right:
  "exec (Suc m) items limit fn pick c = step items limit fn pick (exec m items limit fn pick c)"
  by (induction m arbitrary: c) auto

lemma settle_releases:
  "idx \<notin> set (s_running (settle items fn idx c)) \<and> s_done (settle items fn idx c) = Suc (s_done c) \<and>
   s_ticks (settle items fn idx c) = s_ticks c @ [(Suc (s_done c), length items)]"
  by (cases "fn (items ! idx)") (auto simp: settle_def Let_def)

lemma running_le_step:
  "length (s_running c) \<le> limit \<Longrightarrow> length (s_running (step items limit fn pick c)) \<le> limit"
proof -
  have rm: "\<And>x xs. length (removeAll x xs) \<le> length (xs :: nat list)"
    by (simp add: length_removeAll_less_eq)
  assume "length (s_running c) \<le> limit"
  then show ?thesis
    by (cases "s_pc c"; cases "fn (items ! (s_running c ! (pick (s_done c) mod length (s_running c))))")
       (auto simp: step_def settle_def Let_def intro: le_trans[OF rm])
qed

lemma running_le_exec:
  "length (s_running c) \<le> limit \<Longrightarrow> length (s_running (exec m items limit fn pick c)) \<le> limit"
  by (induction m arbitrary: c) (auto intro: running_le_step)

lemma inv_running:
  assumes "sched_inv items fn c"
  shows "length (s_running c) \<le> 1"
    and "idx \<in> set (s_running c) \<Longrightarrow> s_calls c \<noteq> [] \<and> idx = last (s_calls c)"
    and "s_done c \<le> length items"
  using assms by (cases "s_pc c"; auto simp: sched_inv_def counts_def)+

lemma ok_prefix_le:
  assumes "sequential fn (take d items) = Inr ws" and "j < length items" and "fn (items ! j) = Inl e"
  shows "d \<le> j"
proof (rule ccontr)
  assume "\<not> d \<le> j"
  then have "j < length (take d items)" using assms(2) by simp
  from sequential_nth[OF assms(1) this] have "fn (take d items ! j) = Inr (ws ! j)" .
  moreover have "take d items ! j = items ! j" using \<open>\<not> d \<le> j\<close> by simp
  ultimately show False using assms(3) by simp
qed

lemma all_ok_sequential:
  "\<forall>x\<in>set xs. \<exists>v. fn x = Inr v \<Longrightarrow> \<exists>vs. sequential fn xs = Inr vs"
  by (induction xs) auto

lemma inv_first_failure:
  assumes inv: "sched_inv items fn c" and j: "j < length items"
    and ok: "sequential fn (take j items) = Inr vs" and bad: "fn (items ! j) = Inl e"
  shows "s_i c \<le> Suc j" and "s_pc c \<noteq> Returned"
    and "s_pc c = Rejected e' \<Longrightarrow> e' = e \<and> s_i c = Suc j \<and> s_done c = Suc j \<and> s_running c = []"
proof -
  have le: "\<And>d ws. sequential fn (take d items) = Inr ws \<Longrightarrow> d \<le> j"
    using ok_prefix_le[where j = j and e = e and fn = fn and items = items] j bad by blast
  have full: "\<And>ws. sequential fn items = Inr ws \<Longrightarrow> False"
    using le[of "length items"] j by simp
  show "s_i c \<le> Suc j"
    using inv by (cases "s_pc c") (auto simp: sched_inv_def outs_def dest!: le full)
  show "s_pc c \<noteq> Returned"
    using inv j by (auto simp: sched_inv_def outs_def dest!: full)
  assume r: "s_pc c = Rejected e'"
  with inv have pos: "0 < s_i c" and f: "fn (items ! (s_i c - 1)) = Inl e'"
    and o: "outs items fn c (s_i c - 1)" and cn: "counts items c (s_i c)" and run: "s_running c = []"
    by (auto simp: sched_inv_def)
  from o have "s_i c - 1 \<le> j" by (auto simp: outs_def dest!: le)
  moreover have "\<not> s_i c - 1 < j"
  proof
    assume lt: "s_i c - 1 < j"
    then have "s_i c - 1 < length (take j items)" using j by simp
    from sequential_nth[OF ok this] have "fn (take j items ! (s_i c - 1)) = Inr (vs ! (s_i c - 1))" .
    then show False using f lt by simp
  qed
  ultimately have eq: "s_i c - 1 = j" by simp
  then show "e' = e \<and> s_i c = Suc j \<and> s_done c = Suc j \<and> s_running c = []"
    using f bad pos cn run by (auto simp: counts_def)
qed

text \<open>C2 (as amended). The \<open>finally\<close> callback releases the slot of a task on both
  outcomes: whether the task is fulfilled or rejects, its promise leaves \<open>running\<close>, \<open>done\<close>
  is incremented and \<open>onTick\<close> is called with the new count. At every instant a pending
  promise is the one of the latest call of the task function, so every earlier slot was
  released before the next task was started. But a rejection is not contained: when a task
  rejects, the whole call rejects with that task's error and no further identity is handed
  to the task function, so the identities still queued (here all those after the failing
  one) are never dispatched. When the call has rejected no slot is held, and every task
  that was dispatched, the failing one included, has been counted and ticked.\<close>

theorem rejection_ends_the_run:
  assumes "0 < limit" and "2 * length items + 3 \<le> k" and "j < length items"
    and "sequential fn (take j items) = Inr vs" and "fn (items ! j) = Inl e"
  shows "(\<forall>c idx. idx \<notin> set (s_running (settle items fn idx c)) \<and>
                  s_done (settle items fn idx c) = Suc (s_done c) \<and>
                  s_ticks (settle items fn idx c) = s_ticks c @ [(Suc (s_done c), length items)])
       \<and> (\<forall>m idx. idx \<in> set (s_running (exec m items limit fn pick (init_sched items))) \<longrightarrow>
             s_calls (exec m items limit fn pick (init_sched items)) \<noteq> [] \<and>
             idx = last (s_calls (exec m items limit fn pick (init_sched items))))
       \<and> (\<forall>m idx. idx \<in> set (s_calls (exec m items limit fn pick (init_sched items))) \<longrightarrow> idx \<le> j)
       \<and> mapLimitProgress k items limit fn pick = Some (Inl e)
       \<and> s_running (exec k items limit fn pick (init_sched items)) = []
       \<and> s_calls (exec k items limit fn pick (init_sched items)) = [0 ..< Suc j]
       \<and> s_done (exec k items limit fn pick (init_sched items))
           = length (s_calls (exec k items limit fn pick (init_sched items)))
       \<and> s_ticks (exec k items limit fn pick (init_sched items))
           = map (\<lambda>d. (Suc d, length items))
               [0 ..< length (s_calls (exec k items limit fn pick (init_sched items)))]"
proof -
  have inv: "\<And>m. sched_inv items fn (exec m items limit fn pick (init_sched items))"
    by (rule sched_inv_exec[OF sched_inv_init])
  have a: "\<forall>c idx. idx \<notin> set (s_running (settle items fn idx c)) \<and>
                  s_done (settle items fn idx c) = Suc (s_done c) \<and>
                  s_ticks (settle items fn idx c) = s_ticks c @ [(Suc (s_done c), length items)]"
    using settle_releases by blast
  have b: "\<forall>m idx. idx \<in> set (s_running (exec m items limit fn pick (init_sched items))) \<longrightarrow>
             s_calls (exec m items limit fn pick (init_sched items)) \<noteq> [] \<and>
             idx = last (s_calls (exec m items limit fn pick (init_sched items)))"
    using inv_running(2)[OF inv] by blast
  have c: "\<forall>m idx. idx \<in> set (s_calls (exec m items limit fn pick (init_sched items))) \<longrightarrow> idx \<le> j"
  proof (intro allI impI)
    fix m idx
    assume "idx \<in> set (s_calls (exec m items limit fn pick (init_sched items)))"
    moreover have "s_calls (exec m items limit fn pick (init_sched items))
                   = [0 ..< s_i (exec m items limit fn pick (init_sched items))]"
      using inv[of m] by (simp add: sched_inv_def)
    moreover have "s_i (exec m items limit fn pick (init_sched items)) \<le> Suc j"
      by (rule inv_first_failure(1)[OF inv assms(3,4,5)])
    ultimately show "idx \<le> j" by simp
  qed
  from final_state(2)[OF assms(1,2), of fn pick]
    inv_first_failure(2)[OF inv assms(3,4,5), of k]
  obtain e' where r: "s_pc (exec k items limit fn pick (init_sched items)) = Rejected e'"
    by blast
  from inv_first_failure(3)[OF inv assms(3,4,5) r]
  have fin: "e' = e" "s_i (exec k items limit fn pick (init_sched items)) = Suc j"
    "s_done (exec k items limit fn pick (init_sched items)) = Suc j"
    "s_running (exec k items limit fn pick (init_sched items)) = []"
    by simp_all
  have calls: "s_calls (exec k items limit fn pick (init_sched items)) = [0 ..< Suc j]"
    using inv[of k] fin(2) by (simp add: sched_inv_def)
  have out: "mapLimitProgress k items limit fn pick = Some (Inl e)"
    using r fin(1) by (simp add: mapLimitProgress_def outcome_def)
  have dn: "s_done (exec k items limit fn pick (init_sched items))
           = length (s_calls (exec k items limit fn pick (init_sched items)))"
    using fin(3) calls by simp
  have "counts items (exec k items limit fn pick (init_sched items)) (Suc j)"
    using inv[of k] r fin(2) by (simp add: sched_inv_def)
  then have tk: "s_ticks (exec k items limit fn pick (init_sched items))
           = map (\<lambda>d. (Suc d, length items))
               [0 ..< length (s_calls (exec k items limit fn pick (init_sched items)))]"
    using calls by (simp add: counts_def)
  show ?thesis using a b c out fin(4) calls dn tk by blast
qed

theorem rejection_ends_the_run_witness:
  "0 < MAX_CONCURRENCY \<and> 2 * length [3, 0, 2 :: nat] + 3 \<le> (9 :: nat) \<and> 1 < length [3, 0, 2 :: nat] \<and>
   sequential demo_task (take 1 [3, 0, 2]) = Inr [30] \<and> demo_task ([3, 0, 2] ! 1) = Inl ''boom'' \<and>
   mapLimitProgress 9 [3, 0, 2] MAX_CONCURRENCY demo_task first_pending = Some (Inl ''boom'') \<and>
   s_calls (exec 9 [3, 0, 2] MAX_CONCURRENCY demo_task first_pending (init_sched [3, 0, 2 :: nat])) = [0, 1] \<and>
   s_done (exec 9 [3, 0, 2] MAX_CONCURRENCY demo_task first_pending (init_sched [3, 0, 2 :: nat])) = 2 \<and>
   s_ticks (exec 9 [3, 0, 2] MAX_CONCURRENCY demo_task first_pending (init_sched [3, 0, 2 :: nat])) = [(1, 3), (2, 3)]"
  using rejection_ends_the_run[of MAX_CONCURRENCY "[3, 0, 2]" 9 1 demo_task "[30]" "''boom''" first_pending]
  by (simp add: MAX_CONCURRENCY_def demo_task_def upt_rec)

text \<open>The claim as stated fails: the task of the first of three identities rejects, and
  the other two are never started.\<close>

theorem rejection_skips_the_queue:
  "s_calls (exec 9 [0, 1, 2] MAX_CONCURRENCY demo_task first_pending (init_sched [0, 1, 2 :: nat])) = [0] \<and>
   mapLimitProgress 9 [0, 1, 2] MAX_CONCURRENCY demo_task first_pending = Some (Inl ''boom'')"
  by (simp add: MAX_CONCURRENCY_def demo_task_def first_pending_def init_sched_def step_def settle_def
      mapLimitProgress_def outcome_def eval_nat_numeral)

lemma replacement_step:
  assumes inv: "sched_inv items fn c" and "0 < limit" and pc: "s_pc c = AwaitRun j"
    and ok: "fn (items ! j) = Inr v" and more: "Suc j < length items"
  shows "s_done (step items limit fn pick c) = Suc j"
    and "s_running (step items limit fn pick c) = []"
    and "s_running (step items limit fn pick (step items limit fn pick c)) = [Suc j]"
    and "s_calls (step items limit fn pick (step items limit fn pick c)) = [0 ..< Suc (Suc j)]"
proof -
  from inv pc have i: "s_i c = Suc j" and run: "s_running c = [j]" and cn: "s_done c = j"
    and calls: "s_calls c = [0 ..< Suc j]"
    by (auto simp: sched_inv_def counts_def)
  have st: "step items limit fn pick c = settle items fn j c"
    using pc run by (simp add: step_def)
  have s1: "s_pc (settle items fn j c) = Inner" "s_running (settle items fn j c) = []"
    "s_done (settle items fn j c) = Suc j" "s_i (settle items fn j c) = Suc j"
    "s_calls (settle items fn j c) = [0 ..< Suc j]"
    using pc ok run cn i calls by (simp_all add: settle_def)
  show "s_done (step items limit fn pick c) = Suc j" using st s1 by simp
  show "s_running (step items limit fn pick c) = []" using st s1 by simp
  show "s_running (step items limit fn pick (step items limit fn pick c)) = [Suc j]"
    using st s1 assms(2) more by (simp add: step_def)
  show "s_calls (step items limit fn pick (step items limit fn pick c)) = [0 ..< Suc (Suc j)]"
    using st s1 assms(2) more by (simp add: step_def)
qed

text \<open>C3 (as amended). With a positive ceiling, at every instant the number of tasks in
  flight is at most the ceiling (in fact at most one) and the completion count is at most
  \<open>N\<close>; when a task is fulfilled while identities are still queued, the next one is started
  in the step that follows; and when no task rejects the completion count reaches exactly
  \<open>N\<close>, \<open>onTick\<close> having been called with \<open>(1, N)\<close>, ..., \<open>(N, N)\<close>.\<close>

theorem in_flight_bounded:
  assumes "0 < limit"
  shows "(\<forall>m. length (s_running (exec m items limit fn pick (init_sched items))) \<le> limit \<and>
              length (s_running (exec m items limit fn pick (init_sched items))) \<le> 1 \<and>
              s_done (exec m items limit fn pick (init_sched items)) \<le> length items)
       \<and> (\<forall>m j v. s_pc (exec m items limit fn pick (init_sched items)) = AwaitRun j \<longrightarrow>
              fn (items ! j) = Inr v \<longrightarrow> Suc j < length items \<longrightarrow>
              s_done (exec (Suc m) items limit fn pick (init_sched items)) = Suc j \<and>
              s_running (exec (Suc m) items limit fn pick (init_sched items)) = [] \<and>
              s_running (exec (Suc (Suc m)) items limit fn pick (init_sched items)) = [Suc j] \<and>
              s_calls (exec (Suc (Suc m)) items limit fn pick (init_sched items)) = [0 ..< Suc (Suc j)])
       \<and> ((\<forall>x\<in>set items. \<exists>v. fn x = Inr v) \<longrightarrow>
            (\<forall>k. 2 * length items + 3 \<le> k \<longrightarrow>
               s_done (exec k items limit fn pick (init_sched items)) = length items \<and>
               s_ticks (exec k items limit fn pick (init_sched items))
                 = map (\<lambda>j. (Suc j, length items)) [0 ..< length items] \<and>
               s_pc (exec k items limit fn pick (init_sched items)) = Returned))"
proof (intro conjI allI impI)
  have inv: "\<And>m. sched_inv items fn (exec m items limit fn pick (init_sched items))"
    by (rule sched_inv_exec[OF sched_inv_init])
  fix m
  show "length (s_running (exec m items limit fn pick (init_sched items))) \<le> limit"
    by (rule running_le_exec) (simp add: init_sched_def)
  show "length (s_running (exec m items limit fn pick (init_sched items))) \<le> 1"
    by (rule inv_running(1)[OF inv])
  show "s_done (exec m items limit fn pick (init_sched items)) \<le> length items"
    by (rule inv_running(3)[OF inv])
next
  have inv: "\<And>m. sched_inv items fn (exec m items limit fn pick (init_sched items))"
    by (rule sched_inv_exec[OF sched_inv_init])
  fix m j v
  assume pc: "s_pc (exec m items limit fn pick (init_sched items)) = AwaitRun j"
    and ok: "fn (items ! j) = Inr v" and more: "Suc j < length items"
  note r = replacement_step[OF inv assms pc ok more, of pick]
  show "s_done (exec (Suc m) items limit fn pick (init_sched items)) = Suc j"
    using r(1) by (simp only: exec_Suc_right)
  show "s_running (exec (Suc m) items limit fn pick (init_sched items)) = []"
    using r(2) by (simp only: exec_Suc_right)
  show "s_running (exec (Suc (Suc m)) items limit fn pick (init_sched items)) = [Suc j]"
    using r(3) by (simp only: exec_Suc_right)
  show "s_calls (exec (Suc (Suc m)) items limit fn pick (init_sched items)) = [0 ..< Suc (Suc j)]"
    using r(4) by (simp only: exec_Suc_right)
next
  fix k
  assume all: "\<forall>x\<in>set items. \<exists>v. fn x = Inr v" and k: "2 * length items + 3 \<le> k"
  from all_ok_sequential[OF all] obtain vs where vs: "sequential fn items = Inr vs" ..
  have "mapLimitProgress k items limit fn pick = Some (Inr (map Some vs))"
    using outcome_sequential[OF assms k, of fn pick] vs by simp
  then have r: "s_pc (exec k items limit fn pick (init_sched items)) = Returned"
    by (auto simp: mapLimitProgress_def outcome_def split: pc.splits)
  have inv: "sched_inv items fn (exec k items limit fn pick (init_sched items))"
    by (rule sched_inv_exec[OF sched_inv_init])
  from inv r have cn: "counts items (exec k items limit fn pick (init_sched items)) (length items)"
    by (simp add: sched_inv_def)
  show "s_done (exec k items limit fn pick (init_sched items)) = length items"
    using cn by (simp add: counts_def)
  show "s_ticks (exec k items limit fn pick (init_sched items))
          = map (\<lambda>j. (Suc j, length items)) [0 ..< length items]"
    using cn by (simp add: counts_def)
  show "s_pc (exec k items limit fn pick (init_sched items)) = Returned" by (rule r)
qed

theorem in_flight_bounded_witness:
  "0 < MAX_CONCURRENCY \<and>
   length (s_running (exec 4 [3, 1, 2] MAX_CONCURRENCY demo_task first_pending (init_sched [3, 1, 2 :: nat]))) \<le> MAX_CONCURRENCY \<and>
   s_pc (exec 2 [3, 1, 2] MAX_CONCURRENCY demo_task first_pending (init_sched [3, 1, 2 :: nat])) = AwaitRun 0 \<and>
   demo_task ([3, 1, 2] ! 0) = Inr 30 \<and> Suc 0 < length [3, 1, 2 :: nat] \<and>
   s_running (exec (Suc (Suc 2)) [3, 1, 2] MAX_CONCURRENCY demo_task first_pending (init_sched [3, 1, 2 :: nat])) = [Suc 0] \<and>
   list_all (\<lambda>x. \<exists>v. demo_task x = Inr v) [3, 1, 2] \<and> 2 * length [3, 1, 2 :: nat] + 3 \<le> (9 :: nat) \<and>
   s_done (exec 9 [3, 1, 2] MAX_CONCURRENCY demo_task first_pending (init_sched [3, 1, 2 :: nat])) = length [3, 1, 2 :: nat]"
proof -
  have pos: "0 < MAX_CONCURRENCY" by (simp add: MAX_CONCURRENCY_def)
  have pc: "s_pc (exec 2 [3, 1, 2] MAX_CONCURRENCY demo_task first_pending (init_sched [3, 1, 2 :: nat])) = AwaitRun 0"
    by (simp add: MAX_CONCURRENCY_def init_sched_def step_def eval_nat_numeral)
  have ok: "demo_task ([3, 1, 2] ! 0) = Inr 30" by (simp add: demo_task_def)
  have more: "Suc 0 < length [3, 1, 2 :: nat]" by simp
  have all: "\<forall>x\<in>set [3, 1, 2]. \<exists>v. demo_task x = Inr v" by (simp add: demo_task_def)
  have k: "2 * length [3, 1, 2 :: nat] + 3 \<le> (9 :: nat)" by simp
  note t = in_flight_bounded[OF pos, of "[3, 1, 2]" demo_task first_pending]
  note a = t[THEN conjunct1, rule_format, of 4, THEN conjunct1]
  note b = t[THEN conjunct2, THEN conjunct1, rule_format, OF pc ok more, THEN conjunct2, THEN conjunct2, THEN conjunct1]
  note c = t[THEN conjunct2, THEN conjunct2, THEN mp, OF all, THEN spec, of 9, THEN mp, OF k, THEN conjunct1]
  have all': "list_all (\<lambda>x. \<exists>v. demo_task x = Inr v) [3, 1, 2]" using all by (simp only: list_all_iff)
  show ?thesis using pos a pc ok more b all' k c by (intro conjI)
qed

text \<open>The claim as stated fails on a run in which a task rejects: of three identities the
  second rejects, and the completion count stays at two.\<close>

theorem completions_stop_at_rejection:
  "length [3, 0, 2 :: nat] = 3 \<and>
   s_done (exec 9 [3, 0, 2] MAX_CONCURRENCY demo_task first_pending (init_sched [3, 0, 2 :: nat])) = 2 \<and>
   s_pc (exec 9 [3, 0, 2] MAX_CONCURRENCY demo_task first_pending (init_sched [3, 0, 2 :: nat])) = Rejected ''boom''"
  by (simp add: MAX_CONCURRENCY_def demo_task_def first_pending_def init_sched_def step_def settle_def
      eval_nat_numeral)

section \<open>Version Selection Policy\<close>

lemma compareFn_le: "compareFn a b \<le> 0 \<longleftrightarrow> better_eq a b"
  by (auto simp: compareFn_def better_eq_def Let_def)

lemma better_eq_refl: "better_eq v v"
  by (simp add: better_eq_def)

lemma better_eq_trans: "better_eq a b \<Longrightarrow> better_eq b c \<Longrightarrow> better_eq a c"
  by (auto simp: better_eq_def)

lemma better_eq_total: "better_eq a b \<or> better_eq b a"
  by (auto simp: better_eq_def)

lemma same_rank_iff: "same_rank a b \<longleftrightarrow> better_eq a b \<and> better_eq b a"
  by (auto simp: same_rank_def better_eq_def)

lemma insert_by_head:
  "insert_by compareFn x ys =
     (case ys of [] \<Rightarrow> [x]
      | h # t \<Rightarrow> if better_eq x h then x # ys else h # insert_by compareFn x t)"
  by (cases ys) (simp_all add: compareFn_le)

lemma sort_by_head:
  "(case sort_by compareFn xs of [] \<Rightarrow> None | v # rest \<Rightarrow> Some v) = first_best xs"
proof (induction xs)
  case Nil
  then show ?case by simp
next
  case (Cons x xs)
  then show ?case
    by (cases "sort_by compareFn xs") (auto simp: compareFn_le split: option.splits)
qed

lemma first_best_Some:
  "xs \<noteq> [] \<Longrightarrow> \<exists>i<length xs. first_best xs = Some (xs ! i) \<and>
      (\<forall>u\<in>set xs. better_eq (xs ! i) u) \<and> (\<forall>j<i. \<not> better_eq (xs ! j) (xs ! i))"
proof (induction xs)
  case Nil
  then show ?case by simp
next
  case (Cons x xs)
  show ?case
  proof (cases "xs = []")
    case True
    then show ?thesis by (simp add: better_eq_refl)
  next
    case False
    from Cons.IH[OF False] obtain i where i: "i < length xs" "first_best xs = Some (xs ! i)"
      "\<forall>u\<in>set xs. better_eq (xs ! i) u" "\<forall>j<i. \<not> better_eq (xs ! j) (xs ! i)"
      by blast
    show ?thesis
    proof (cases "better_eq x (xs ! i)")
      case True
      have "\<forall>u\<in>set (x # xs). better_eq x u"
        using True i(3) better_eq_trans better_eq_refl by auto
      then have "0 < length (x # xs) \<and> first_best (x # xs) = Some ((x # xs) ! 0) \<and>
        (\<forall>u\<in>set (x # xs). better_eq ((x # xs) ! 0) u) \<and> (\<forall>j<0. \<not> better_eq ((x # xs) ! j) ((x # xs) ! 0))"
        using True i(2) by simp
      then show ?thesis by blast
    next
      case F: False
      then have bx: "better_eq (xs ! i) x" using better_eq_total by blast
      have a: "first_best (x # xs) = Some ((x # xs) ! Suc i)" using F i(2) by simp
      have b: "\<forall>u\<in>set (x # xs). better_eq ((x # xs) ! Suc i) u" using bx i(3) by simp
      have c: "\<forall>j<Suc i. \<not> better_eq ((x # xs) ! j) ((x # xs) ! Suc i)"
      proof (intro allI impI)
        fix j assume "j < Suc i"
        then show "\<not> better_eq ((x # xs) ! j) ((x # xs) ! Suc i)"
          using F i(4) by (cases j) auto
      qed
      have "Suc i < length (x # xs)" using i(1) by simp
      then show ?thesis using a b c by blast
    qed
  qed
qed

text \<open>The model of \<open>Array.prototype.sort\<close> is an insertion sort. What the proofs use of it
  is what the language guarantees of every stable sort with this comparator: the result is
  a permutation of the list, it is sorted, and candidates of the same rank keep the order
  they were listed in. These three properties determine the result.\<close>

lemma same_rank_sym: "same_rank a b \<Longrightarrow> same_rank b a"
  by (simp add: same_rank_def)

lemma same_rank_trans: "same_rank a b \<Longrightarrow> same_rank b c \<Longrightarrow> same_rank a c"
  by (simp add: same_rank_def)

lemma count_insert_by: "count_list (insert_by cmp x ys) z = count_list (x # ys) z"
  by (induction ys) auto

lemma count_sort_by: "count_list (sort_by cmp xs) z = count_list xs z"
  by (induction xs) (auto simp: count_insert_by)

lemma set_insert_by: "set (insert_by cmp x ys) = insert x (set ys)"
  by (induction ys) auto

lemma sorted_insert_by:
  "sorted_wrt better_eq ys \<Longrightarrow> sorted_wrt better_eq (insert_by compareFn x ys)"
proof (induction ys)
  case Nil
  then show ?case by simp
next
  case (Cons y ys)
  show ?case
  proof (cases "better_eq x y")
    case True
    then have "\<forall>u\<in>set (y # ys). better_eq x u"
      using Cons.prems better_eq_trans by auto
    then show ?thesis using True Cons.prems by (simp add: compareFn_le)
  next
    case False
    then have "better_eq y x" using better_eq_total by blast
    then show ?thesis
      using False Cons by (auto simp: compareFn_le set_insert_by)
  qed
qed

lemma stable_insert_by:
  "filter (same_rank v) (insert_by compareFn x ys) = filter (same_rank v) (x # ys)"
proof (induction ys)
  case Nil
  then show ?case by simp
next
  case (Cons y ys)
  show ?case
  proof (cases "better_eq x y")
    case True
    then show ?thesis by (simp add: compareFn_le)
  next
    case False
    then have "\<not> same_rank x y" by (simp add: same_rank_iff)
    then have "\<not> (same_rank v x \<and> same_rank v y)"
      using same_rank_sym same_rank_trans by blast
    then show ?thesis using False Cons.IH by (auto simp: compareFn_le)
  qed
qed

lemma sort_by_stable_sort:
  "(\<forall>z. count_list (sort_by compareFn xs) z = count_list xs z) \<and>
   sorted_wrt better_eq (sort_by compareFn xs) \<and>
   (\<forall>v. filter (same_rank v) (sort_by compareFn xs) = filter (same_rank v) xs)"
proof (intro conjI allI)
  show "count_list (sort_by compareFn xs) z = count_list xs z" for z
    by (rule count_sort_by)
  show "sorted_wrt better_eq (sort_by compareFn xs)"
    by (induction xs) (auto intro: sorted_insert_by)
  show "filter (same_rank v) (sort_by compareFn xs) = filter (same_rank v) xs" for v
    by (induction xs) (auto simp: stable_insert_by)
qed

text \<open>C4. Rank a candidate 3 when its type is \<open>release\<close>, 2 when it is \<open>beta\<close> and 1
  otherwise. Of a non-empty list of candidates \<open>getBestTargetVersion\<close> returns one of
  them such that every candidate has a lower rank, or the same rank and a publish time that
  is not later; and no candidate listed before it has the same rank and the same publish
  time: of the best candidates the earliest-listed wins. In particular, of a candidate of
  rank 1 followed by two releases it returns the release published later.\<close>

theorem getBestTargetVersion_policy:
  "(let rank = (\<lambda>u. if version_type u = ''release'' then 3
                     else if version_type u = ''beta'' then 2 else (1 :: int))
    in versions \<noteq> [] \<longrightarrow>
       (\<exists>i<length versions. getBestTargetVersion (Some versions) = Some (versions ! i) \<and>
          (\<forall>u\<in>set versions.
              rank u < rank (versions ! i) \<or>
              rank u = rank (versions ! i) \<and> date_published u \<le> date_published (versions ! i)) \<and>
          (\<forall>j<i. \<not> (rank (versions ! j) = rank (versions ! i) \<and>
                       date_published (versions ! j) = date_published (versions ! i)))))
   \<and> (version_type a \<noteq> ''release'' \<and> version_type a \<noteq> ''beta'' \<and>
      version_type b = ''release'' \<and> version_type c = ''release'' \<and>
      date_published b < date_published c \<longrightarrow>
        getBestTargetVersion (Some [a, b, c]) = Some c)"
proof (intro conjI)
  define rank where "rank = (\<lambda>u :: version. if version_type u = ''release'' then 3
                     else if version_type u = ''beta'' then 2 else (1 :: int))"
  have tr: "\<And>u. tier u = rank u" by (simp add: rank_def tier_def)
  have be: "\<And>v u. better_eq v u \<longleftrightarrow>
              rank u < rank v \<or> rank u = rank v \<and> date_published u \<le> date_published v"
    by (simp add: better_eq_def tr)
  have sr: "\<And>v u. same_rank v u \<longleftrightarrow> rank u = rank v \<and> date_published u = date_published v"
    by (simp add: same_rank_def tr)
  have "versions \<noteq> [] \<longrightarrow>
       (\<exists>i<length versions. getBestTargetVersion (Some versions) = Some (versions ! i) \<and>
          (\<forall>u\<in>set versions.
              rank u < rank (versions ! i) \<or>
              rank u = rank (versions ! i) \<and> date_published u \<le> date_published (versions ! i)) \<and>
          (\<forall>j<i. \<not> (rank (versions ! j) = rank (versions ! i) \<and>
                       date_published (versions ! j) = date_published (versions ! i))))"
  proof
    assume ne: "versions \<noteq> []"
    from first_best_Some[OF ne] obtain i where i: "i < length versions"
      "first_best versions = Some (versions ! i)"
      "\<forall>u\<in>set versions. better_eq (versions ! i) u"
      "\<forall>j<i. \<not> better_eq (versions ! j) (versions ! i)"
      by blast
    have g: "getBestTargetVersion (Some versions) = Some (versions ! i)"
      using ne i(2) sort_by_head[of versions] by (simp add: getBestTargetVersion_def)
    have mx: "\<forall>u\<in>set versions.
              rank u < rank (versions ! i) \<or>
              rank u = rank (versions ! i) \<and> date_published u \<le> date_published (versions ! i)"
      using i(3) by (simp add: be)
    have "\<forall>j<i. \<not> same_rank (versions ! i) (versions ! j)"
      using i(4) by (simp add: same_rank_iff)
    then have fst: "\<forall>j<i. \<not> (rank (versions ! j) = rank (versions ! i) \<and>
                       date_published (versions ! j) = date_published (versions ! i))"
      by (simp add: sr)
    show "\<exists>i<length versions. getBestTargetVersion (Some versions) = Some (versions ! i) \<and>
          (\<forall>u\<in>set versions.
              rank u < rank (versions ! i) \<or>
              rank u = rank (versions ! i) \<and> date_published u \<le> date_published (versions ! i)) \<and>
          (\<forall>j<i. \<not> (rank (versions ! j) = rank (versions ! i) \<and>
                       date_published (versions ! j) = date_published (versions ! i)))"
      using i(1) g mx fst by blast
  qed
  then show "let rank = (\<lambda>u. if version_type u = ''release'' then 3
                     else if version_type u = ''beta'' then 2 else (1 :: int))
    in versions \<noteq> [] \<longrightarrow>
       (\<exists>i<length versions. getBestTargetVersion (Some versions) = Some (versions ! i) \<and>
          (\<forall>u\<in>set versions.
              rank u < rank (versions ! i) \<or>
              rank u = rank (versions ! i) \<and> date_published u \<le> date_published (versions ! i)) \<and>
          (\<forall>j<i. \<not> (rank (versions ! j) = rank (versions ! i) \<and>
                       date_published (versions ! j) = date_published (versions ! i))))"
    unfolding Let_def rank_def .
next
  show "version_type a \<noteq> ''release'' \<and> version_type a \<noteq> ''beta'' \<and>
      version_type b = ''release'' \<and> version_type c = ''release'' \<and>
      date_published b < date_published c \<longrightarrow>
        getBestTargetVersion (Some [a, b, c]) = Some c"
    by (simp add: getBestTargetVersion_def compareFn_def tier_def)
qed

theorem getBestTargetVersion_policy_witness:
  "[demo_version ''0.9'' ''alpha'' 50 True, demo_version ''1.0'' ''beta'' 30 True,
    demo_version ''1.1'' ''beta'' 40 True] \<noteq> [] \<and>
   getBestTargetVersion (Some [demo_version ''0.9'' ''alpha'' 50 True, demo_version ''1.0'' ''beta'' 30 True,
     demo_version ''1.1'' ''beta'' 40 True]) = Some (demo_version ''1.1'' ''beta'' 40 True) \<and>
   version_type (demo_version ''0.9'' ''alpha'' 50 True) \<noteq> ''release'' \<and>
   version_type (demo_version ''0.9'' ''alpha'' 50 True) \<noteq> ''beta'' \<and>
   version_type (demo_version ''1.0'' ''release'' 10 True) = ''release'' \<and>
   version_type (demo_version ''1.1'' ''release'' 20 True) = ''release'' \<and>
   date_published (demo_version ''1.0'' ''release'' 10 True) < date_published (demo_version ''1.1'' ''release'' 20 True) \<and>
   getBestTargetVersion (Some [demo_version ''0.9'' ''alpha'' 50 True, demo_version ''1.0'' ''release'' 10 True,
     demo_version ''1.1'' ''release'' 20 True]) = Some (demo_version ''1.1'' ''release'' 20 True)"
proof -
  let ?a = "demo_version ''0.9'' ''alpha'' 50 True"
  let ?b1 = "demo_version ''1.0'' ''beta'' 30 True"
  let ?b2 = "demo_version ''1.1'' ''beta'' 40 True"
  let ?r1 = "demo_version ''1.0'' ''release'' 10 True"
  let ?r2 = "demo_version ''1.1'' ''release'' 20 True"
  have ne: "[?a, ?b1, ?b2] \<noteq> []" by simp
  note t = getBestTargetVersion_policy[of "[?a, ?b1, ?b2]" ?a ?r1 ?r2, unfolded Let_def]
  from t[THEN conjunct1, THEN mp, OF ne]
  obtain i where i: "i < length [?a, ?b1, ?b2]"
      "getBestTargetVersion (Some [?a, ?b1, ?b2]) = Some ([?a, ?b1, ?b2] ! i)"
    and mx: "\<forall>u\<in>set [?a, ?b1, ?b2].
        (if version_type u = ''release'' then 3 else if version_type u = ''beta'' then 2 else (1 :: int))
          < (if version_type ([?a, ?b1, ?b2] ! i) = ''release'' then 3
             else if version_type ([?a, ?b1, ?b2] ! i) = ''beta'' then 2 else 1) \<or>
        (if version_type u = ''release'' then 3 else if version_type u = ''beta'' then 2 else (1 :: int))
          = (if version_type ([?a, ?b1, ?b2] ! i) = ''release'' then 3
             else if version_type ([?a, ?b1, ?b2] ! i) = ''beta'' then 2 else 1) \<and>
        date_published u \<le> date_published ([?a, ?b1, ?b2] ! i)"
    by blast
  from i(1) have "i = 0 \<or> i = 1 \<or> i = 2" by auto
  then have "i = 2"
    using mx by (auto simp: demo_version_def)
  then have beta: "getBestTargetVersion (Some [?a, ?b1, ?b2]) = Some ?b2" using i(2) by simp
  have h: "version_type ?a \<noteq> ''release''" "version_type ?a \<noteq> ''beta''"
    "version_type ?r1 = ''release''" "version_type ?r2 = ''release''"
    "date_published ?r1 < date_published ?r2"
    by (simp_all add: demo_version_def)
  note rel = t[THEN conjunct2, THEN mp, OF conjI, OF h(1) conjI, OF h(2) conjI, OF h(3) conjI, OF h(4) h(5)]
  show ?thesis using ne beta h rel by (intro conjI)
qed

section \<open>The per-identity task\<close>

lemma or_null_None [simp]: "or_null None = None"
  by (simp add: or_null_def js_or_def truthy_def)

lemma truthy_or_null [simp]: "truthy (or_null a) = truthy a"
  by (simp add: or_null_def js_or_def truthy_def)

lemma or_null_truthy: "truthy a \<Longrightarrow> or_null a = a"
  by (simp add: or_null_def js_or_def)

lemma getBest_empty: "getBestTargetVersion None = None" "getBestTargetVersion (Some []) = None"
  by (simp_all add: getBestTargetVersion_def)

lemma task_cases:
  assumes "task_result A pid = Inr r"
  obtains (primary) "\<not> (bestModrinth A pid = None \<and> isCarpet (projectMap A pid) pid)"
      "fallback_calls A pid = 0"
      "r = make_row (PACK_MC A) (targetMc A) pid (task_cat A pid) (projectMap A pid)
             (case projectEntries A pid of None \<Rightarrow> None | Some e \<Rightarrow> Some (anyVersion e))
             (task_loader A pid) (map_option Primary (bestModrinth A pid))
             (if projectMap A pid \<noteq> None then ''modrinth'' else ''none'')
             (pickPrimaryFile (bestModrinth A pid))"
    | (nomatch) "bestModrinth A pid = None" "isCarpet (projectMap A pid) pid"
      "fallback_calls A pid = 1"
      "fetchCarpetGitHubRelease (targetMc A) False (carpet_feed A) = Inr None"
      "r = make_row (PACK_MC A) (targetMc A) pid (task_cat A pid) (projectMap A pid)
             (case projectEntries A pid of None \<Rightarrow> None | Some e \<Rightarrow> Some (anyVersion e))
             (task_loader A pid) None
             (if projectMap A pid \<noteq> None then ''modrinth'' else ''none'') None"
    | (fallback) gh where "bestModrinth A pid = None" "isCarpet (projectMap A pid) pid"
      "fallback_calls A pid = 1"
      "fetchCarpetGitHubRelease (targetMc A) False (carpet_feed A) = Inr (Some gh)"
      "r = make_row (PACK_MC A) (targetMc A) pid (task_cat A pid) (projectMap A pid)
             (case projectEntries A pid of None \<Rightarrow> None | Some e \<Rightarrow> Some (anyVersion e))
             (task_loader A pid) (Some (Fallback gh)) ''github-fallback'' None"
proof (cases "bestModrinth A pid = None \<and> isCarpet (projectMap A pid) pid")
  case False
  show ?thesis
  proof (rule primary[OF False])
    show "fallback_calls A pid = 0"
      using False by (auto simp: fallback_calls_def analyze_task_def Let_def)
    show "r = make_row (PACK_MC A) (targetMc A) pid (task_cat A pid) (projectMap A pid)
             (case projectEntries A pid of None \<Rightarrow> None | Some e \<Rightarrow> Some (anyVersion e))
             (task_loader A pid) (map_option Primary (bestModrinth A pid))
             (if projectMap A pid \<noteq> None then ''modrinth'' else ''none'')
             (pickPrimaryFile (bestModrinth A pid))"
      using False assms
      by (cases "bestModrinth A pid")
         (auto simp: task_result_def analyze_task_def Let_def pickPrimaryFile_def)
  qed
next
  case True
  then have calls: "fallback_calls A pid = 1"
    by (simp add: fallback_calls_def analyze_task_def Let_def)
  from True assms obtain g where g: "fetchCarpetGitHubRelease (targetMc A) False (carpet_feed A) = Inr g"
    by (cases "fetchCarpetGitHubRelease (targetMc A) False (carpet_feed A)")
       (auto simp: task_result_def analyze_task_def Let_def)
  show ?thesis
  proof (cases g)
    case None
    show ?thesis
      by (rule nomatch) (use True calls g None assms in
          \<open>auto simp: task_result_def analyze_task_def Let_def\<close>)
  next
    case (Some gh)
    show ?thesis
      by (rule fallback[of gh]) (use True calls g Some assms in
          \<open>auto simp: task_result_def analyze_task_def Let_def\<close>)
  qed
qed

lemma make_row_sel:
  "project_id (make_row pmc tmc pid cat proj rep loader best src fmeta) = pid"
  "category (make_row pmc tmc pid cat proj rep loader best src fmeta) = cat"
  "slug (make_row pmc tmc pid cat proj rep loader best src fmeta) = proj_slug proj"
  "source (make_row pmc tmc pid cat proj rep loader best src fmeta) = src"
  "target_available (make_row pmc tmc pid cat proj rep loader best src fmeta) = (best \<noteq> None)"
  "target_file_sha1 (make_row pmc tmc pid cat proj rep loader best src fmeta)
     = or_null (case fmeta of None \<Rightarrow> None | Some f \<Rightarrow> f_sha1 f)"
  "target_file_sha512 (make_row pmc tmc pid cat proj rep loader best src fmeta)
     = or_null (case fmeta of None \<Rightarrow> None | Some f \<Rightarrow> f_sha512 f)"
  "target_file_size (make_row pmc tmc pid cat proj rep loader best src fmeta)
     = (case fmeta of None \<Rightarrow> None | Some f \<Rightarrow> f_size f)"
  "target_file_url (make_row pmc tmc pid cat proj rep loader best src fmeta)
     = or_null (case fmeta of None \<Rightarrow> None | Some f \<Rightarrow> f_url f)"
  "target_file_name (make_row pmc tmc pid cat proj rep loader best src fmeta)
     = or_null (case fmeta of None \<Rightarrow> None | Some f \<Rightarrow> f_filename f)"
  by (simp_all add: make_row_def)

lemma row_source_fallback:
  assumes "task_result A pid = Inr r" and "source r = ''github-fallback''"
  shows "target_available r" and "\<not> has_file_meta r"
proof -
  from assms(1) have "target_available r \<and> \<not> has_file_meta r"
  proof (cases rule: task_cases)
    case primary
    then show ?thesis using assms(2) by (simp add: make_row_sel split: if_splits)
  next
    case nomatch
    then show ?thesis using assms(2) by (simp add: make_row_sel split: if_splits)
  next
    case (fallback gh)
    then show ?thesis by (simp add: make_row_sel has_file_meta_def truthy_def)
  qed
  then show "target_available r" and "\<not> has_file_meta r" by simp_all
qed

lemma row_meta_available:
  assumes "task_result A pid = Inr r" and "truthy (target_file_sha1 r)"
  shows "target_available r"
  using assms(1)
proof (cases rule: task_cases)
  case primary
  then show ?thesis using assms(2)
    by (cases "bestModrinth A pid") (simp_all add: make_row_sel truthy_def pickPrimaryFile_def)
next
  case nomatch
  then show ?thesis using assms(2) by (simp add: make_row_sel truthy_def)
next
  case (fallback gh)
  then show ?thesis by (simp add: make_row_sel)
qed

text \<open>C5. The task calls the Fallback Source Arbiter exactly when the primary source
  gave no candidate and the identity is on the allow-list (the slug \<open>fabric-carpet\<close> or
  the project id \<open>TQTTVgYE\<close>), and never more than once. So for an identity that is not
  on the list and for which the primary source yields no candidate (an empty list, or
  \<open>null\<close> after a failed request), the arbiter is not called and the row is marked
  unavailable. The task of the older version of the page does the same once its two
  requests have returned.\<close>

theorem fallback_only_for_allow_list:
  "fallback_calls A pid = (if bestModrinth A pid = None \<and> isCarpet (projectMap A pid) pid then 1 else 0)
   \<and> (isCarpet proj pid \<longleftrightarrow> proj_slug proj = Some ''fabric-carpet'' \<or> pid = ''TQTTVgYE'')
   \<and> (\<not> isCarpet (projectMap A pid) pid \<longrightarrow>
        (fetchModrinthVersions A pid (targetMc A) (task_loader A pid) = Some [] \<or>
         fetchModrinthVersions A pid (targetMc A) (task_loader A pid) = None) \<longrightarrow>
        fallback_calls A pid = 0 \<and>
        (\<exists>r. task_result A pid = Inr r \<and> project_id r = pid \<and> \<not> target_available r))
   \<and> fst (legacy_task L pid) =
        (if (\<exists>p. lg_getProject L pid = Inr p \<and> isCarpet p pid) \<and> legacy_best L pid = Inr None
         then 1 else 0)
   \<and> (lg_getProject L pid = Inr proj \<longrightarrow> \<not> isCarpet proj pid \<longrightarrow>
        (lg_versions L pid (lg_TARGET_MC L) (loaderForCategory (lg_PACK_LOADER L) (legacy_cat L pid)) = VBody (Some []) \<or>
         lg_versions L pid (lg_TARGET_MC L) (loaderForCategory (lg_PACK_LOADER L) (legacy_cat L pid)) = VBody None) \<longrightarrow>
        fst (legacy_task L pid) = 0 \<and>
        (\<exists>r. snd (legacy_task L pid) = Inr r \<and> project_id r = pid \<and> \<not> target_available r))"
proof (intro conjI impI)
  show "fallback_calls A pid = (if bestModrinth A pid = None \<and> isCarpet (projectMap A pid) pid then 1 else 0)"
    by (simp add: fallback_calls_def analyze_task_def Let_def)
  show "isCarpet proj pid \<longleftrightarrow> proj_slug proj = Some ''fabric-carpet'' \<or> pid = ''TQTTVgYE''"
    by (simp add: isCarpet_def)
  show "fst (legacy_task L pid) =
        (if (\<exists>p. lg_getProject L pid = Inr p \<and> isCarpet p pid) \<and> legacy_best L pid = Inr None
         then 1 else 0)"
    by (cases "lg_getProject L pid"; cases "legacy_best L pid")
       (auto simp: legacy_task_def Let_def)
next
  assume nc: "\<not> isCarpet (projectMap A pid) pid"
    and z: "fetchModrinthVersions A pid (targetMc A) (task_loader A pid) = Some [] \<or>
            fetchModrinthVersions A pid (targetMc A) (task_loader A pid) = None"
  from z have none: "bestModrinth A pid = None"
    by (auto simp: bestModrinth_def getBest_empty)
  show "fallback_calls A pid = 0"
    using nc by (simp add: fallback_calls_def analyze_task_def Let_def)
  show "\<exists>r. task_result A pid = Inr r \<and> project_id r = pid \<and> \<not> target_available r"
    using nc none by (simp add: task_result_def analyze_task_def Let_def make_row_sel)
next
  assume p: "lg_getProject L pid = Inr proj" and nc: "\<not> isCarpet proj pid"
    and z: "lg_versions L pid (lg_TARGET_MC L) (loaderForCategory (lg_PACK_LOADER L) (legacy_cat L pid)) = VBody (Some []) \<or>
            lg_versions L pid (lg_TARGET_MC L) (loaderForCategory (lg_PACK_LOADER L) (legacy_cat L pid)) = VBody None"
  from z have none: "legacy_best L pid = Inr None"
    by (auto simp: legacy_best_def legacy_getBestTargetVersion_def getBest_empty)
  show "fst (legacy_task L pid) = 0"
    using p nc none by (simp add: legacy_task_def Let_def)
  show "\<exists>r. snd (legacy_task L pid) = Inr r \<and> project_id r = pid \<and> \<not> target_available r"
    using p nc none by (simp add: legacy_task_def Let_def make_row_sel)
qed

theorem fallback_only_for_allow_list_witness:
  "\<not> isCarpet (projectMap demo_analysis ''P2'') ''P2'' \<and>
   fetchModrinthVersions demo_analysis ''P2'' (targetMc demo_analysis) (task_loader demo_analysis ''P2'') = Some [] \<and>
   fallback_calls demo_analysis ''P2'' = 0 \<and>
   (\<exists>r. task_result demo_analysis ''P2'' = Inr r \<and> project_id r = ''P2'' \<and> \<not> target_available r) \<and>
   lg_getProject demo_legacy ''P2'' = Inr None \<and> \<not> isCarpet None ''P2'' \<and>
   lg_versions demo_legacy ''P2'' (lg_TARGET_MC demo_legacy)
     (loaderForCategory (lg_PACK_LOADER demo_legacy) (legacy_cat demo_legacy ''P2'')) = VBody (Some []) \<and>
   fst (legacy_task demo_legacy ''P2'') = 0 \<and>
   (\<exists>r. snd (legacy_task demo_legacy ''P2'') = Inr r \<and> project_id r = ''P2'' \<and> \<not> target_available r)"
proof -
  have nc: "\<not> isCarpet (projectMap demo_analysis ''P2'') ''P2''"
    by (simp add: isCarpet_def proj_slug_def demo_analysis_def demo_project_def)
  have z: "fetchModrinthVersions demo_analysis ''P2'' (targetMc demo_analysis) (task_loader demo_analysis ''P2'') = Some []"
    by (simp add: demo_analysis_def demo_versions_def)
  have lp: "lg_getProject demo_legacy ''P2'' = Inr None" by (simp add: demo_legacy_def)
  have lnc: "\<not> isCarpet None ''P2''" by (simp add: isCarpet_def proj_slug_def)
  have lz: "lg_versions demo_legacy ''P2'' (lg_TARGET_MC demo_legacy)
     (loaderForCategory (lg_PACK_LOADER demo_legacy) (legacy_cat demo_legacy ''P2'')) = VBody (Some [])"
    by (simp add: demo_legacy_def demo_versions_def)
  note t = fallback_only_for_allow_list[of demo_analysis "''P2''" None demo_legacy]
  note a = t[THEN conjunct2, THEN conjunct2, THEN conjunct1, THEN mp, OF nc, THEN mp, OF disjI1, OF z]
  note b = t[THEN conjunct2, THEN conjunct2, THEN conjunct2, THEN conjunct2, THEN mp, OF lp, THEN mp, OF lnc,
      THEN mp, OF disjI1, OF lz]
  show ?thesis using nc z a lp lnc lz b by (intro conjI) blast+
qed

lemma pickPrimaryFile_Some:
  "pickPrimaryFile (Some v) =
     (case files v of None \<Rightarrow> None | Some fs \<Rightarrow>
        (case find f_primary fs of Some g \<Rightarrow> Some g | None \<Rightarrow> (case fs of [] \<Rightarrow> None | f # rest \<Rightarrow> Some f)))"
  by (auto simp: pickPrimaryFile_def split: option.splits list.splits)

lemma task_row_primary:
  assumes "bestModrinth A pid = Some v"
  shows "\<exists>r. task_result A pid = Inr r \<and> project_id r = pid \<and> target_available r \<and>
          target_file_sha1 r = or_null (case pickPrimaryFile (Some v) of None \<Rightarrow> None | Some f \<Rightarrow> f_sha1 f) \<and>
          target_file_sha512 r = or_null (case pickPrimaryFile (Some v) of None \<Rightarrow> None | Some f \<Rightarrow> f_sha512 f) \<and>
          target_file_size r = (case pickPrimaryFile (Some v) of None \<Rightarrow> None | Some f \<Rightarrow> f_size f) \<and>
          target_file_url r = or_null (case pickPrimaryFile (Some v) of None \<Rightarrow> None | Some f \<Rightarrow> f_url f) \<and>
          target_file_name r = or_null (case pickPrimaryFile (Some v) of None \<Rightarrow> None | Some f \<Rightarrow> f_filename f)"
  using assms by (simp add: task_result_def analyze_task_def Let_def make_row_sel)

lemma demo_best:
  "bestModrinth demo_analysis ''P3'' = Some (demo_version ''2.0'' ''release'' 5 False)"
  "bestModrinth demo_analysis ''P1'' = Some (demo_version ''1.0'' ''release'' 10 True)"
  by code_simp+

text \<open>C10. The file whose metadata the task caches for a chosen primary candidate is
  the first file of the version flagged primary when there is one, and the first listed
  file otherwise. The row caches the sha1, the sha512, the URL and the file name of that
  file (a missing or empty string as \<open>null\<close>) and its size (when it is a finite number).
  A version whose file list is empty or missing yields no file, every cached field of the
  row is then \<open>null\<close>, and the row is not packaged.\<close>

theorem cached_file_is_primary_or_first:
  "(files v = Some fs \<longrightarrow> (\<exists>g\<in>set fs. f_primary g) \<longrightarrow>
      pickPrimaryFile (Some v) = find f_primary fs \<and>
      (\<exists>i<length fs. pickPrimaryFile (Some v) = Some (fs ! i) \<and> f_primary (fs ! i) \<and>
                      (\<forall>j<i. \<not> f_primary (fs ! j))))
   \<and> (files v = Some (f # rest) \<longrightarrow> (\<forall>g\<in>set (f # rest). \<not> f_primary g) \<longrightarrow>
      pickPrimaryFile (Some v) = Some f)
   \<and> (files v = None \<or> files v = Some [] \<longrightarrow> pickPrimaryFile (Some v) = None)
   \<and> (bestModrinth A pid = Some v \<longrightarrow>
        (\<exists>r. task_result A pid = Inr r \<and>
          (\<forall>g. pickPrimaryFile (Some v) = Some g \<longrightarrow>
             target_file_sha1 r = (if f_sha1 g = Some [] then None else f_sha1 g) \<and>
             target_file_sha512 r = (if f_sha512 g = Some [] then None else f_sha512 g) \<and>
             target_file_size r = f_size g \<and>
             target_file_url r = (if f_url g = Some [] then None else f_url g) \<and>
             target_file_name r = (if f_filename g = Some [] then None else f_filename g)) \<and>
          (files v = None \<or> files v = Some [] \<longrightarrow>
             target_file_sha1 r = None \<and> target_file_sha512 r = None \<and> target_file_size r = None \<and>
             target_file_url r = None \<and> target_file_name r = None \<and>
             \<not> includable r \<and> fileRecords orig [r] = [])))"
proof (intro conjI impI)
  assume fs: "files v = Some fs" and ex: "\<exists>g\<in>set fs. f_primary g"
  from ex obtain g where g: "find f_primary fs = Some g"
    by (cases "find f_primary fs") (auto simp: find_None_iff)
  show a: "pickPrimaryFile (Some v) = find f_primary fs"
    using fs g by (simp add: pickPrimaryFile_Some)
  from g obtain i where "i < length fs" "f_primary (fs ! i)" "g = fs ! i" "\<forall>j<i. \<not> f_primary (fs ! j)"
    by (auto simp: find_Some_iff)
  then show "\<exists>i<length fs. pickPrimaryFile (Some v) = Some (fs ! i) \<and> f_primary (fs ! i) \<and>
                      (\<forall>j<i. \<not> f_primary (fs ! j))"
    using a g by auto
next
  assume "files v = Some (f # rest)" and "\<forall>g\<in>set (f # rest). \<not> f_primary g"
  then have "files v = Some (f # rest)" and "find f_primary (f # rest) = None"
    by (simp_all add: find_None_iff)
  then show "pickPrimaryFile (Some v) = Some f"
    by (simp add: pickPrimaryFile_Some)
next
  assume "files v = None \<or> files v = Some []"
  then show "pickPrimaryFile (Some v) = None"
    by (auto simp: pickPrimaryFile_def)
next
  assume b: "bestModrinth A pid = Some v"
  from task_row_primary[OF b] obtain r where r: "task_result A pid = Inr r"
    "target_file_sha1 r = or_null (case pickPrimaryFile (Some v) of None \<Rightarrow> None | Some f \<Rightarrow> f_sha1 f)"
    "target_file_sha512 r = or_null (case pickPrimaryFile (Some v) of None \<Rightarrow> None | Some f \<Rightarrow> f_sha512 f)"
    "target_file_size r = (case pickPrimaryFile (Some v) of None \<Rightarrow> None | Some f \<Rightarrow> f_size f)"
    "target_file_url r = or_null (case pickPrimaryFile (Some v) of None \<Rightarrow> None | Some f \<Rightarrow> f_url f)"
    "target_file_name r = or_null (case pickPrimaryFile (Some v) of None \<Rightarrow> None | Some f \<Rightarrow> f_filename f)"
    by blast
  have cached: "\<forall>g. pickPrimaryFile (Some v) = Some g \<longrightarrow>
             target_file_sha1 r = (if f_sha1 g = Some [] then None else f_sha1 g) \<and>
             target_file_sha512 r = (if f_sha512 g = Some [] then None else f_sha512 g) \<and>
             target_file_size r = f_size g \<and>
             target_file_url r = (if f_url g = Some [] then None else f_url g) \<and>
             target_file_name r = (if f_filename g = Some [] then None else f_filename g)"
  proof (intro allI impI)
    fix g assume g: "pickPrimaryFile (Some v) = Some g"
    show "target_file_sha1 r = (if f_sha1 g = Some [] then None else f_sha1 g) \<and>
             target_file_sha512 r = (if f_sha512 g = Some [] then None else f_sha512 g) \<and>
             target_file_size r = f_size g \<and>
             target_file_url r = (if f_url g = Some [] then None else f_url g) \<and>
             target_file_name r = (if f_filename g = Some [] then None else f_filename g)"
      using r(2-6) g
      by (cases "f_sha1 g"; cases "f_sha512 g"; cases "f_url g"; cases "f_filename g")
         (simp_all add: or_null_def js_or_def truthy_def)
  qed
  have nofile: "files v = None \<or> files v = Some [] \<longrightarrow>
             target_file_sha1 r = None \<and> target_file_sha512 r = None \<and> target_file_size r = None \<and>
             target_file_url r = None \<and> target_file_name r = None \<and>
             \<not> includable r \<and> fileRecords orig [r] = []"
  proof
    assume "files v = None \<or> files v = Some []"
    then have "pickPrimaryFile (Some v) = None" by (auto simp: pickPrimaryFile_def)
    then show "target_file_sha1 r = None \<and> target_file_sha512 r = None \<and> target_file_size r = None \<and>
             target_file_url r = None \<and> target_file_name r = None \<and>
             \<not> includable r \<and> fileRecords orig [r] = []"
      using r by (simp add: includable_def has_file_meta_def truthy_def fileRecords_def)
  qed
  show "\<exists>r. task_result A pid = Inr r \<and>
          (\<forall>g. pickPrimaryFile (Some v) = Some g \<longrightarrow>
             target_file_sha1 r = (if f_sha1 g = Some [] then None else f_sha1 g) \<and>
             target_file_sha512 r = (if f_sha512 g = Some [] then None else f_sha512 g) \<and>
             target_file_size r = f_size g \<and>
             target_file_url r = (if f_url g = Some [] then None else f_url g) \<and>
             target_file_name r = (if f_filename g = Some [] then None else f_filename g)) \<and>
          (files v = None \<or> files v = Some [] \<longrightarrow>
             target_file_sha1 r = None \<and> target_file_sha512 r = None \<and> target_file_size r = None \<and>
             target_file_url r = None \<and> target_file_name r = None \<and>
             \<not> includable r \<and> fileRecords orig [r] = [])"
    using r(1) cached nofile by blast
qed

theorem cached_file_is_primary_or_first_witness:
  "files (demo_version ''1.0'' ''release'' 10 True) = Some [demo_file ''extra.jar'' False, demo_file ''main.jar'' True] \<and>
   list_ex f_primary [demo_file ''extra.jar'' False, demo_file ''main.jar'' True] \<and>
   pickPrimaryFile (Some (demo_version ''1.0'' ''release'' 10 True)) = Some (demo_file ''main.jar'' True) \<and>
   files ((demo_version ''1.0'' ''release'' 10 True)\<lparr> files := Some [demo_file ''a.jar'' False, demo_file ''b.jar'' False] \<rparr>)
     = Some [demo_file ''a.jar'' False, demo_file ''b.jar'' False] \<and>
   list_all (\<lambda>g. \<not> f_primary g) [demo_file ''a.jar'' False, demo_file ''b.jar'' False] \<and>
   pickPrimaryFile (Some ((demo_version ''1.0'' ''release'' 10 True)\<lparr> files := Some [demo_file ''a.jar'' False, demo_file ''b.jar'' False] \<rparr>))
     = Some (demo_file ''a.jar'' False) \<and>
   files (demo_version ''2.0'' ''release'' 5 False) = Some [] \<and>
   pickPrimaryFile (Some (demo_version ''2.0'' ''release'' 5 False)) = None \<and>
   bestModrinth demo_analysis ''P1'' = Some (demo_version ''1.0'' ''release'' 10 True) \<and>
   (\<exists>r. task_result demo_analysis ''P1'' = Inr r \<and>
        target_file_sha1 r = Some ''sha1-main.jar'' \<and> target_file_sha512 r = Some ''sha512-main.jar'' \<and>
        target_file_size r = Some 1024 \<and> target_file_url r = Some ''https://cdn.example/main.jar'' \<and>
        target_file_name r = Some ''main.jar'') \<and>
   bestModrinth demo_analysis ''P3'' = Some (demo_version ''2.0'' ''release'' 5 False) \<and>
   (\<exists>r. task_result demo_analysis ''P3'' = Inr r \<and> target_file_sha1 r = None \<and> \<not> includable r)"
proof -
  let ?v1 = "demo_version ''1.0'' ''release'' 10 True"
  let ?v2 = "?v1\<lparr> files := Some [demo_file ''a.jar'' False, demo_file ''b.jar'' False] \<rparr>"
  let ?v3 = "demo_version ''2.0'' ''release'' 5 False"
  have f1: "files ?v1 = Some [demo_file ''extra.jar'' False, demo_file ''main.jar'' True]"
    by (simp add: demo_version_def)
  have e1: "\<exists>g\<in>set [demo_file ''extra.jar'' False, demo_file ''main.jar'' True]. f_primary g"
    by (simp add: demo_file_def)
  have f2: "files ?v2 = Some (demo_file ''a.jar'' False # [demo_file ''b.jar'' False])" by simp
  have e2: "\<forall>g\<in>set (demo_file ''a.jar'' False # [demo_file ''b.jar'' False]). \<not> f_primary g"
    by (simp add: demo_file_def)
  have f3: "files ?v3 = Some []" by (simp add: demo_version_def)
  note a = cached_file_is_primary_or_first[of ?v1, THEN conjunct1, rule_format, OF f1, THEN conjunct1]
  have a': "pickPrimaryFile (Some ?v1) = Some (demo_file ''main.jar'' True)"
    using a[OF e1] by (simp add: demo_file_def)
  note b = cached_file_is_primary_or_first[of ?v2, THEN conjunct2, THEN conjunct1, THEN mp, OF f2, THEN mp, OF e2]
  note c = cached_file_is_primary_or_first[of ?v3, THEN conjunct2, THEN conjunct2, THEN conjunct1, THEN mp, OF disjI2, OF f3]
  note d1 = cached_file_is_primary_or_first[of ?v1 _ _ _ demo_analysis "''P1''" Map.empty,
      THEN conjunct2, THEN conjunct2, THEN conjunct2, THEN mp, OF demo_best(2)]
  then obtain r1 where r1: "task_result demo_analysis ''P1'' = Inr r1"
    and c1: "\<forall>g. pickPrimaryFile (Some ?v1) = Some g \<longrightarrow>
             target_file_sha1 r1 = (if f_sha1 g = Some [] then None else f_sha1 g) \<and>
             target_file_sha512 r1 = (if f_sha512 g = Some [] then None else f_sha512 g) \<and>
             target_file_size r1 = f_size g \<and>
             target_file_url r1 = (if f_url g = Some [] then None else f_url g) \<and>
             target_file_name r1 = (if f_filename g = Some [] then None else f_filename g)"
    by blast
  from c1[THEN spec, of "demo_file ''main.jar'' True", THEN mp, OF a']
  have "target_file_sha1 r1 = Some ''sha1-main.jar'' \<and> target_file_sha512 r1 = Some ''sha512-main.jar'' \<and>
        target_file_size r1 = Some 1024 \<and> target_file_url r1 = Some ''https://cdn.example/main.jar'' \<and>
        target_file_name r1 = Some ''main.jar''"
    by (simp add: demo_file_def)
  with r1 have d1': "\<exists>r. task_result demo_analysis ''P1'' = Inr r \<and>
        target_file_sha1 r = Some ''sha1-main.jar'' \<and> target_file_sha512 r = Some ''sha512-main.jar'' \<and>
        target_file_size r = Some 1024 \<and> target_file_url r = Some ''https://cdn.example/main.jar'' \<and>
        target_file_name r = Some ''main.jar''"
    by blast
  note d = cached_file_is_primary_or_first[of ?v3 _ _ _ demo_analysis "''P3''" Map.empty,
      THEN conjunct2, THEN conjunct2, THEN conjunct2, THEN mp, OF demo_best(1)]
  have d': "\<exists>r. task_result demo_analysis ''P3'' = Inr r \<and> target_file_sha1 r = None \<and> \<not> includable r"
    using d f3 by blast
  have e1': "list_ex f_primary [demo_file ''extra.jar'' False, demo_file ''main.jar'' True]"
    using e1 by (simp only: list_ex_iff)
  have e2': "list_all (\<lambda>g. \<not> f_primary g) [demo_file ''a.jar'' False, demo_file ''b.jar'' False]"
    using e2 by (simp only: list_all_iff)
  show ?thesis using f1 e1' a' f2 e2' b f3 c demo_best(2) d1' demo_best(1) d' by (intro conjI)
qed

section \<open>Manifest Rebuilder\<close>

lemma build_Inr:
  assumes "build m meta = Inr b"
  shows "hasData m"
    and "b_files b = fileRecords (projectIdToOrigFile m) (rows m)"
    and "b_skipped b = filter is_skipped (rows m)"
    and "b_names b = map report_name (filter is_skipped (rows m))"
  using assms by (auto simp: build_def Let_def split: option.splits if_splits)

lemma truthy_num_iff: "truthy_num s \<longleftrightarrow> (\<exists>n. s = Some n \<and> n \<noteq> 0)"
  by (cases s) (auto simp: truthy_num_def)

lemma truthy_iff: "truthy s \<longleftrightarrow> (\<exists>x. s = Some x \<and> x \<noteq> [])"
  by (cases s) (auto simp: truthy_def)

lemma has_file_meta_iff:
  "has_file_meta r \<longleftrightarrow>
     (\<exists>s. target_file_sha1 r = Some s \<and> s \<noteq> []) \<and> (\<exists>s. target_file_sha512 r = Some s \<and> s \<noteq> []) \<and>
     (\<exists>n. target_file_size r = Some n \<and> n \<noteq> 0) \<and> (\<exists>u. target_file_url r = Some u \<and> u \<noteq> [])"
  unfolding has_file_meta_def truthy_iff truthy_num_iff by blast

lemma includable_task_row:
  assumes "task_result A pid = Inr r"
  shows "includable r \<longleftrightarrow> source r = ''modrinth'' \<and> has_file_meta r"
  using row_meta_available[OF assms]
  by (auto simp: includable_def has_file_meta_def)

lemma skipped_task_row:
  assumes "task_result A pid = Inr r" and "source r = ''github-fallback''"
  shows "is_skipped r" and "\<not> includable r"
  using row_source_fallback[OF assms] assms(2)
  by (simp_all add: is_skipped_def includable_def)

lemma build_completes: "hasData m \<Longrightarrow> \<exists>b. build m meta = Inr b"
  by (auto simp: build_def hasData_def Let_def split: option.splits)

lemma demo_rows_eval:
  "task_result demo_analysis ''P1'' = Inr (demo_row ''P1'')"
  "task_result demo_analysis ''TQTTVgYE'' = Inr (demo_row ''TQTTVgYE'')"
  "task_result demo_analysis ''P4'' = Inr (demo_row ''P4'')"
  by code_simp+

lemma demo_rows_src:
  "source (demo_row ''P1'') = ''modrinth''" "source (demo_row ''TQTTVgYE'') = ''github-fallback''"
  "source (demo_row ''P4'') = ''modrinth''"
  "has_file_meta (demo_row ''P1'')" "has_file_meta (demo_row ''P4'')"
  by code_simp+

lemma rec_nonempty: "getRecommendedLoaderVersion l meta = Some ver \<Longrightarrow> ver \<noteq> []"
  by (auto simp: getRecommendedLoaderVersion_def or_null_def js_or_def truthy_def Let_def
      split: if_splits meta_response.splits option.splits)

lemma rec_truthy: "truthy (getRecommendedLoaderVersion l meta) \<longleftrightarrow> getRecommendedLoaderVersion l meta \<noteq> None"
  using rec_nonempty[of l meta] by (cases "getRecommendedLoaderVersion l meta") (auto simp: truthy_def)

lemma build_fabric:
  assumes "hasData m" and "mp_index m = Some ix" and "selectedLoader m = ''fabric''"
  shows "build m meta = Inr
     \<lparr> b_dependencies =
         (case getRecommendedLoaderVersion ''fabric'' meta of
            None \<Rightarrow> (ix_dependencies ix)(''minecraft'' \<mapsto> mp_targetMc m)
          | Some ver \<Rightarrow> (ix_dependencies ix)(''minecraft'' \<mapsto> mp_targetMc m, ''fabric-loader'' \<mapsto> ver)),
       b_files = fileRecords (projectIdToOrigFile m) (rows m),
       b_loaderNote =
         (case getRecommendedLoaderVersion ''fabric'' meta of
            Some ver \<Rightarrow> ''Fabric Loader set to '' @ ver @ ''.''
          | None \<Rightarrow> if truthy (ix_dependencies ix ''fabric-loader'')
                    then ''Kept existing Fabric Loader '' @ the (ix_dependencies ix ''fabric-loader'') @ '' (meta lookup failed).''
                    else ''Fabric Loader not set (meta lookup failed).''),
       b_lookups = 1,
       b_skipped = filter is_skipped (rows m),
       b_names = map report_name (filter is_skipped (rows m)) \<rparr>"
  using assms rec_truthy[of "''fabric''" meta]
  by (cases "getRecommendedLoaderVersion ''fabric'' meta") (simp_all add: build_def Let_def truthy_def)

lemma build_other:
  assumes "hasData m" and "mp_index m = Some ix" and "selectedLoader m \<noteq> ''fabric''"
  shows "build m meta = Inr
     \<lparr> b_dependencies = (ix_dependencies ix)(''minecraft'' \<mapsto> mp_targetMc m),
       b_files = fileRecords (projectIdToOrigFile m) (rows m),
       b_loaderNote = [],
       b_lookups = 0,
       b_skipped = filter is_skipped (rows m),
       b_names = map report_name (filter is_skipped (rows m)) \<rparr>"
  using assms by (simp add: build_def Let_def)

text \<open>The size is tested for truthiness only: a row whose cached size is negative passes
  the filter.\<close>

lemma negative_size_is_packaged:
  "includable ((demo_row ''P1'')\<lparr> target_file_size := Some (- 5) \<rparr>)"
  using demo_rows_src(1,4) demo_rows_eval(1) row_meta_available[of demo_analysis "''P1''" "demo_row ''P1''"]
  by (simp add: includable_def has_file_meta_def truthy_num_def)

text \<open>C6 (as amended). For the rows the resolver produces, a row is turned into a record of the new
  file list exactly when its source is \<open>modrinth\<close> and it carries a non-empty sha1 and
  sha512 digest, a size that is a finite number other than zero (the size is tested for
  truthiness, so a negative one passes) and a non-empty URL. A row of fallback origin is
  listed among the skipped rows, with its name in the note, and never packaged. So of three
  rows of which exactly one is of fallback origin, the other two being primary rows with
  such metadata, two make the file list and the fallback row is the one skipped row.\<close>

theorem packaged_iff_primary_and_complete:
  assumes "\<forall>r\<in>set (rows m). \<exists>A pid. task_result A pid = Inr r" and "build m meta = Inr b"
  shows "(let has_meta = (\<lambda>r. (\<exists>s. target_file_sha1 r = Some s \<and> s \<noteq> []) \<and>
                              (\<exists>s. target_file_sha512 r = Some s \<and> s \<noteq> []) \<and>
                              (\<exists>n. target_file_size r = Some n \<and> n \<noteq> 0) \<and>
                              (\<exists>u. target_file_url r = Some u \<and> u \<noteq> []))
          in b_files b = map (fileRecord (projectIdToOrigFile m))
                           (filter (\<lambda>r. source r = ''modrinth'' \<and> has_meta r) (rows m))
             \<and> (\<forall>r\<in>set (rows m). source r = ''github-fallback'' \<longrightarrow>
                   r \<in> set (b_skipped b) \<and> report_name r \<in> set (b_names b) \<and>
                   r \<notin> set (filter includable (rows m)) \<and> \<not> has_meta r)
             \<and> (length (rows m) = 3 \<and>
                length (filter (\<lambda>r. source r = ''github-fallback'') (rows m)) = 1 \<and>
                (\<forall>r\<in>set (rows m). source r \<noteq> ''github-fallback'' \<longrightarrow>
                    source r = ''modrinth'' \<and> has_meta r) \<longrightarrow>
                  length (b_files b) = 2 \<and>
                  b_skipped b = filter (\<lambda>r. source r = ''github-fallback'') (rows m)))"
  unfolding Let_def has_file_meta_iff[symmetric]
proof (intro conjI ballI impI)
  note bb = build_Inr[OF assms(2)]
  have inc: "\<And>r. r \<in> set (rows m) \<Longrightarrow> includable r \<longleftrightarrow> source r = ''modrinth'' \<and> has_file_meta r"
    using assms(1) includable_task_row by blast
  have "filter includable (rows m) =
        filter (\<lambda>r. source r = ''modrinth'' \<and> has_file_meta r) (rows m)"
    by (rule filter_cong[OF refl]) (rule inc)
  then show "b_files b = map (fileRecord (projectIdToOrigFile m))
           (filter (\<lambda>r. source r = ''modrinth'' \<and> has_file_meta r) (rows m))"
    using bb(2) by (simp add: fileRecords_def)
next
  note bb = build_Inr[OF assms(2)]
  fix r assume r: "r \<in> set (rows m)" and fb: "source r = ''github-fallback''"
  from assms(1) r obtain A pid where t: "task_result A pid = Inr r" by blast
  note sk = skipped_task_row[OF t fb]
  show "r \<in> set (b_skipped b)" using bb(3) r sk(1) by simp
  show "report_name r \<in> set (b_names b)" using bb(4) r sk(1) by simp
  show "r \<notin> set (filter includable (rows m))" using sk(2) by simp
  show "\<not> has_file_meta r" by (rule row_source_fallback(2)[OF t fb])
next
  note bb = build_Inr[OF assms(2)]
  assume h: "length (rows m) = 3 \<and> length (filter (\<lambda>r. source r = ''github-fallback'') (rows m)) = 1 \<and>
          (\<forall>r\<in>set (rows m). source r \<noteq> ''github-fallback'' \<longrightarrow> source r = ''modrinth'' \<and> has_file_meta r)"
  from h have h1: "length (rows m) = 3"
    and h2: "length (filter (\<lambda>r. source r = ''github-fallback'') (rows m)) = 1"
    and h3: "\<forall>r\<in>set (rows m). source r \<noteq> ''github-fallback'' \<longrightarrow> source r = ''modrinth'' \<and> has_file_meta r"
    by blast+
  have fbrow: "\<And>r. r \<in> set (rows m) \<Longrightarrow> source r = ''github-fallback'' \<Longrightarrow> is_skipped r \<and> \<not> includable r"
    using assms(1) skipped_task_row by blast
  have avail: "\<And>r. r \<in> set (rows m) \<Longrightarrow> has_file_meta r \<Longrightarrow> target_available r"
    using assms(1) row_meta_available unfolding has_file_meta_def by blast
  have inc: "filter includable (rows m) = filter (\<lambda>r. \<not> source r = ''github-fallback'') (rows m)"
  proof (rule filter_cong[OF refl])
    fix r assume r: "r \<in> set (rows m)"
    show "includable r = (\<not> source r = ''github-fallback'')"
    proof (cases "source r = ''github-fallback''")
      case True
      then show ?thesis using fbrow[OF r] by simp
    next
      case False
      then have "source r = ''modrinth'' \<and> has_file_meta r" using h3 r by blast
      then show ?thesis using False avail[OF r] by (simp add: includable_def)
    qed
  qed
  have skp: "filter is_skipped (rows m) = filter (\<lambda>r. source r = ''github-fallback'') (rows m)"
  proof (rule filter_cong[OF refl])
    fix r assume r: "r \<in> set (rows m)"
    show "is_skipped r = (source r = ''github-fallback'')"
    proof (cases "source r = ''github-fallback''")
      case True
      then show ?thesis using fbrow[OF r] by simp
    next
      case False
      then have "source r = ''modrinth'' \<and> has_file_meta r" using h3 r by blast
      then show ?thesis using False by (simp add: is_skipped_def)
    qed
  qed
  have "length (filter (\<lambda>r. source r = ''github-fallback'') (rows m)) +
        length (filter (\<lambda>r. \<not> source r = ''github-fallback'') (rows m)) = length (rows m)"
    by (rule sum_length_filter_compl)
  then have "length (filter includable (rows m)) = 2" using h1 h2 inc by simp
  then show "length (b_files b) = 2" using bb(2) by (simp add: fileRecords_def)
  show "b_skipped b = filter (\<lambda>r. source r = ''github-fallback'') (rows m)"
    using bb(3) skp by simp
qed

theorem packaged_iff_primary_and_complete_witness:
  "list_all (\<lambda>r. \<exists>A pid. task_result A pid = Inr r) (rows demo_pack) \<and>
   build demo_pack MetaThrows = Inr (projr (build demo_pack MetaThrows)) \<and>
   length (rows demo_pack) = 3 \<and>
   length (filter (\<lambda>r. source r = ''github-fallback'') (rows demo_pack)) = 1 \<and>
   list_all (\<lambda>r. source r = ''github-fallback'' \<or>
                  source r = ''modrinth'' \<and>
                  (\<exists>s. target_file_sha1 r = Some s \<and> s \<noteq> []) \<and>
                  (\<exists>s. target_file_sha512 r = Some s \<and> s \<noteq> []) \<and>
                  (\<exists>n. target_file_size r = Some n \<and> n \<noteq> 0) \<and>
                  (\<exists>u. target_file_url r = Some u \<and> u \<noteq> [])) (rows demo_pack) \<and>
   length (b_files (projr (build demo_pack MetaThrows))) = 2 \<and>
   b_skipped (projr (build demo_pack MetaThrows)) = [demo_row ''TQTTVgYE'']"
proof -
  have rs: "rows demo_pack = [demo_row ''P1'', demo_row ''TQTTVgYE'', demo_row ''P4'']"
    by (simp add: demo_pack_def)
  have prov: "\<forall>r\<in>set (rows demo_pack). \<exists>A pid. task_result A pid = Inr r"
    using demo_rows_eval by (auto simp: rs)
  have "hasData demo_pack" by (simp add: hasData_def demo_pack_def)
  from build_completes[OF this] obtain b0 where "build demo_pack MetaThrows = Inr b0" by blast
  then have bld: "build demo_pack MetaThrows = Inr (projr (build demo_pack MetaThrows))"
    by simp
  have n: "length (rows demo_pack) = 3" by (simp add: rs)
  have one: "length (filter (\<lambda>r. source r = ''github-fallback'') (rows demo_pack)) = 1"
    by (simp add: rs demo_rows_src)
  have rest: "\<forall>r\<in>set (rows demo_pack). source r \<noteq> ''github-fallback'' \<longrightarrow>
      source r = ''modrinth'' \<and>
      (\<exists>s. target_file_sha1 r = Some s \<and> s \<noteq> []) \<and> (\<exists>s. target_file_sha512 r = Some s \<and> s \<noteq> []) \<and>
      (\<exists>n. target_file_size r = Some n \<and> n \<noteq> 0) \<and> (\<exists>u. target_file_url r = Some u \<and> u \<noteq> [])"
    unfolding has_file_meta_iff[symmetric] by (simp add: rs demo_rows_src)
  note t = packaged_iff_primary_and_complete[OF prov bld, unfolded Let_def, THEN conjunct2, THEN conjunct2, THEN mp,
      OF conjI, OF n conjI, OF one rest]
  have sk: "filter (\<lambda>r. source r = ''github-fallback'') (rows demo_pack) = [demo_row ''TQTTVgYE'']"
    by (simp add: rs demo_rows_src)
  have p': "list_all (\<lambda>r. \<exists>A pid. task_result A pid = Inr r) (rows demo_pack)"
    using prov by (simp only: list_all_iff)
  have r': "list_all (\<lambda>r. source r = ''github-fallback'' \<or>
                  source r = ''modrinth'' \<and>
                  (\<exists>s. target_file_sha1 r = Some s \<and> s \<noteq> []) \<and>
                  (\<exists>s. target_file_sha512 r = Some s \<and> s \<noteq> []) \<and>
                  (\<exists>n. target_file_size r = Some n \<and> n \<noteq> 0) \<and>
                  (\<exists>u. target_file_url r = Some u \<and> u \<noteq> [])) (rows demo_pack)"
    unfolding has_file_meta_iff[symmetric] by (simp add: rs demo_rows_src)
  show ?thesis using p' bld n one r' t sk by simp
qed

text \<open>The claim as stated fails: of three available rows exactly one is of fallback
  origin, but the version of another lists no file, so only one row is packaged and two
  are skipped.\<close>

theorem unpackaged_primary_row:
  "rows gap_pack = [demo_row ''P1'', demo_row ''TQTTVgYE'', demo_row ''P3''] \<and>
   task_result demo_analysis ''P3'' = Inr (demo_row ''P3'') \<and>
   target_available (demo_row ''P1'') \<and> target_available (demo_row ''TQTTVgYE'') \<and>
   target_available (demo_row ''P3'') \<and>
   source (demo_row ''P1'') = ''modrinth'' \<and> source (demo_row ''TQTTVgYE'') = ''github-fallback'' \<and>
   source (demo_row ''P3'') = ''modrinth'' \<and>
   length (b_files (projr (build gap_pack MetaThrows))) = 1 \<and>
   b_skipped (projr (build gap_pack MetaThrows)) = [demo_row ''TQTTVgYE'', demo_row ''P3'']"
proof -
  have h: "hasData gap_pack" "mp_index gap_pack = Some demo_index" "selectedLoader gap_pack = ''fabric''"
    by (simp_all add: hasData_def gap_pack_def demo_pack_def)
  have rs: "rows gap_pack = [demo_row ''P1'', demo_row ''TQTTVgYE'', demo_row ''P3'']"
    by (simp add: gap_pack_def)
  have p3: "task_result demo_analysis ''P3'' = Inr (demo_row ''P3'')" by code_simp
  have av: "target_available (demo_row ''P1'')" "target_available (demo_row ''TQTTVgYE'')"
    "target_available (demo_row ''P3'')"
    by code_simp+
  have src3: "source (demo_row ''P3'') = ''modrinth''" by code_simp
  have inc: "includable (demo_row ''P1'')" "\<not> includable (demo_row ''TQTTVgYE'')"
    "\<not> includable (demo_row ''P3'')"
    by code_simp+
  have sk: "\<not> is_skipped (demo_row ''P1'')" "is_skipped (demo_row ''TQTTVgYE'')"
    "is_skipped (demo_row ''P3'')"
    by code_simp+
  have b: "length (b_files (projr (build gap_pack MetaThrows))) = 1"
    "b_skipped (projr (build gap_pack MetaThrows)) = [demo_row ''TQTTVgYE'', demo_row ''P3'']"
    unfolding build_fabric[OF h] by (simp_all add: rs fileRecords_def inc sk)
  show ?thesis using rs p3 av demo_rows_src(1,2) src3 b by simp
qed

text \<open>C9 (as amended). The rebuilt dependencies are those of the original manifest with
  \<open>minecraft\<close> set to the target version. With the fabric loader selected, \<open>build\<close> looks
  the loader version up once: on success the \<open>fabric-loader\<close> pin is set to the new value
  and nothing else changes (the value is the version of the first entry of the answer
  marked stable); when the lookup yields nothing (the request threw, the status
  was not ok, the body was no array or an empty one) nothing else is set, so the previous
  pin is kept if there was one and none is set otherwise, and the note says so. The build
  completes in either case. With any other loader selected there is no lookup and no note,
  and every pin but \<open>minecraft\<close> is carried over unchanged.\<close>

theorem loader_pin_best_effort:
  assumes "hasData m" and "mp_index m = Some ix"
  shows "\<exists>b. build m meta = Inr b \<and> b_lookups b \<le> 1 \<and>
           b_dependencies b ''minecraft'' = Some (mp_targetMc m) \<and>
           (selectedLoader m = ''fabric'' \<longrightarrow>
              b_lookups b = 1 \<and>
              (\<forall>ver. getRecommendedLoaderVersion ''fabric'' meta = Some ver \<longrightarrow>
                 b_dependencies b =
                   (ix_dependencies ix)(''minecraft'' \<mapsto> mp_targetMc m, ''fabric-loader'' \<mapsto> ver) \<and>
                 b_dependencies b ''fabric-loader'' = Some ver \<and>
                 b_loaderNote b = ''Fabric Loader set to '' @ ver @ ''.'') \<and>
              (getRecommendedLoaderVersion ''fabric'' meta = None \<longrightarrow>
                 b_dependencies b = (ix_dependencies ix)(''minecraft'' \<mapsto> mp_targetMc m) \<and>
                 b_dependencies b ''fabric-loader'' = ix_dependencies ix ''fabric-loader'' \<and>
                 b_loaderNote b =
                   (if ix_dependencies ix ''fabric-loader'' \<noteq> None \<and> ix_dependencies ix ''fabric-loader'' \<noteq> Some []
                    then ''Kept existing Fabric Loader '' @ the (ix_dependencies ix ''fabric-loader'') @ '' (meta lookup failed).''
                    else ''Fabric Loader not set (meta lookup failed).'')) \<and>
              (meta = MetaThrows \<or> meta = MetaNotOk \<or> meta = MetaBody None \<or> meta = MetaBody (Some []) \<longrightarrow>
                 getRecommendedLoaderVersion ''fabric'' meta = None) \<and>
              (\<forall>xs x ver. meta = MetaBody (Some xs) \<and> find le_stable xs = Some x \<and>
                 le_version x = Some ver \<and> ver \<noteq> [] \<longrightarrow>
                 getRecommendedLoaderVersion ''fabric'' meta = Some ver)) \<and>
           (selectedLoader m \<noteq> ''fabric'' \<longrightarrow>
              b_lookups b = 0 \<and> b_loaderNote b = [] \<and>
              b_dependencies b = (ix_dependencies ix)(''minecraft'' \<mapsto> mp_targetMc m) \<and>
              (\<forall>key. key \<noteq> ''minecraft'' \<longrightarrow> b_dependencies b key = ix_dependencies ix key))"
proof (cases "selectedLoader m = ''fabric''")
  case True
  have fail: "meta = MetaThrows \<or> meta = MetaNotOk \<or> meta = MetaBody None \<or> meta = MetaBody (Some []) \<longrightarrow>
                 getRecommendedLoaderVersion ''fabric'' meta = None"
    by (auto simp: getRecommendedLoaderVersion_def)
  have succ: "\<forall>xs x ver. meta = MetaBody (Some xs) \<and> find le_stable xs = Some x \<and>
                 le_version x = Some ver \<and> ver \<noteq> [] \<longrightarrow>
                 getRecommendedLoaderVersion ''fabric'' meta = Some ver"
    by (auto simp: getRecommendedLoaderVersion_def or_null_def js_or_def truthy_def)
  have tr: "truthy (ix_dependencies ix ''fabric-loader'') \<longleftrightarrow>
            ix_dependencies ix ''fabric-loader'' \<noteq> None \<and> ix_dependencies ix ''fabric-loader'' \<noteq> Some []"
    by (cases "ix_dependencies ix ''fabric-loader''") (simp_all add: truthy_def)
  show ?thesis
    unfolding build_fabric[OF assms True] tr using True fail succ
    by (cases "getRecommendedLoaderVersion ''fabric'' meta") simp_all
next
  case False
  show ?thesis
    unfolding build_other[OF assms False] using False by simp
qed

theorem loader_pin_best_effort_witness:
  "hasData demo_pack \<and> mp_index demo_pack = Some demo_index \<and> selectedLoader demo_pack = ''fabric'' \<and>
   getRecommendedLoaderVersion ''fabric'' demo_meta = Some ''0.16.0'' \<and>
   getRecommendedLoaderVersion ''fabric'' MetaNotOk = None \<and>
   hasData quilt_pinned_pack \<and> selectedLoader quilt_pinned_pack = ''quilt'' \<and>
   (\<exists>b. build demo_pack demo_meta = Inr b \<and>
        b_dependencies b = [''minecraft'' \<mapsto> ''1.21.4'', ''fabric-loader'' \<mapsto> ''0.16.0'']) \<and>
   (\<exists>b. build demo_pack MetaNotOk = Inr b \<and>
        b_dependencies b = [''minecraft'' \<mapsto> ''1.21.4'', ''fabric-loader'' \<mapsto> ''0.15.0''] \<and>
        b_loaderNote b = ''Kept existing Fabric Loader 0.15.0 (meta lookup failed).'') \<and>
   (\<exists>b. build quilt_pinned_pack demo_meta = Inr b \<and> b_lookups b = 0 \<and>
        b_dependencies b = [''minecraft'' \<mapsto> ''1.21.4'', ''quilt-loader'' \<mapsto> ''0.26.0''])"
proof -
  let ?qix = "demo_index\<lparr> ix_dependencies := [''minecraft'' \<mapsto> ''1.20.1'', ''quilt-loader'' \<mapsto> ''0.26.0''] \<rparr>"
  have h: "hasData demo_pack" "mp_index demo_pack = Some demo_index" "selectedLoader demo_pack = ''fabric''"
    by (simp_all add: hasData_def demo_pack_def)
  have q: "hasData quilt_pinned_pack" "mp_index quilt_pinned_pack = Some ?qix"
    "selectedLoader quilt_pinned_pack \<noteq> ''fabric''" "selectedLoader quilt_pinned_pack = ''quilt''"
    "mp_targetMc quilt_pinned_pack = ''1.21.4''"
    by (simp_all add: hasData_def demo_pack_def quilt_pack_def quilt_pinned_pack_def)
  have tm: "mp_targetMc demo_pack = ''1.21.4''" by (simp add: demo_pack_def)
  have ok: "getRecommendedLoaderVersion ''fabric'' demo_meta = Some ''0.16.0''"
    by (simp add: getRecommendedLoaderVersion_def demo_meta_def or_null_def js_or_def truthy_def)
  have bad: "getRecommendedLoaderVersion ''fabric'' MetaNotOk = None"
    by (simp add: getRecommendedLoaderVersion_def)
  have old: "ix_dependencies demo_index = [''minecraft'' \<mapsto> ''1.20.1'', ''fabric-loader'' \<mapsto> ''0.15.0'']"
    by (simp add: demo_index_def)
  have m1: "[''minecraft'' \<mapsto> ''1.20.1'', ''fabric-loader'' \<mapsto> ''0.15.0''](''minecraft'' \<mapsto> ''1.21.4'', ''fabric-loader'' \<mapsto> ''0.16.0'')
            = [''minecraft'' \<mapsto> ''1.21.4'', ''fabric-loader'' \<mapsto> ''0.16.0'']"
    by (rule ext) simp
  have m2: "[''minecraft'' \<mapsto> ''1.20.1'', ''fabric-loader'' \<mapsto> ''0.15.0''](''minecraft'' \<mapsto> ''1.21.4'')
            = [''minecraft'' \<mapsto> ''1.21.4'', ''fabric-loader'' \<mapsto> ''0.15.0'']"
    by (rule ext) simp
  have m3: "[''minecraft'' \<mapsto> ''1.20.1'', ''quilt-loader'' \<mapsto> ''0.26.0''](''minecraft'' \<mapsto> ''1.21.4'')
            = [''minecraft'' \<mapsto> ''1.21.4'', ''quilt-loader'' \<mapsto> ''0.26.0'']"
    by (rule ext) simp
  have a: "\<exists>b. build demo_pack demo_meta = Inr b \<and>
        b_dependencies b = [''minecraft'' \<mapsto> ''1.21.4'', ''fabric-loader'' \<mapsto> ''0.16.0'']"
    using loader_pin_best_effort[OF h(1,2), of demo_meta] h(3) ok old tm m1 by auto
  have b: "\<exists>b. build demo_pack MetaNotOk = Inr b \<and>
        b_dependencies b = [''minecraft'' \<mapsto> ''1.21.4'', ''fabric-loader'' \<mapsto> ''0.15.0''] \<and>
        b_loaderNote b = ''Kept existing Fabric Loader 0.15.0 (meta lookup failed).''"
    using loader_pin_best_effort[OF h(1,2), of MetaNotOk] h(3) bad old tm m2 by auto
  have c: "\<exists>b. build quilt_pinned_pack demo_meta = Inr b \<and> b_lookups b = 0 \<and>
        b_dependencies b = [''minecraft'' \<mapsto> ''1.21.4'', ''quilt-loader'' \<mapsto> ''0.26.0'']"
    using loader_pin_best_effort[OF q(1,2), of demo_meta] q(3,5) m3 by auto
  show ?thesis using h ok bad q(1,4) a b c by (intro conjI)
qed

text \<open>The claim as stated fails for a pack whose selected loader is not fabric: no lookup
  is made, although it would have succeeded, and the old pin stays.\<close>

theorem no_lookup_for_other_loaders:
  "selectedLoader quilt_pack = ''quilt'' \<and>
   getRecommendedLoaderVersion ''fabric'' demo_meta = Some ''0.16.0'' \<and>
   b_lookups (projr (build quilt_pack demo_meta)) = 0 \<and>
   b_loaderNote (projr (build quilt_pack demo_meta)) = [] \<and>
   b_dependencies (projr (build quilt_pack demo_meta)) ''fabric-loader'' = Some ''0.15.0''"
proof -
  have q: "hasData quilt_pack" "mp_index quilt_pack = Some demo_index" "selectedLoader quilt_pack \<noteq> ''fabric''"
    by (simp_all add: hasData_def demo_pack_def quilt_pack_def)
  have ok: "getRecommendedLoaderVersion ''fabric'' demo_meta = Some ''0.16.0''"
    by (simp add: getRecommendedLoaderVersion_def demo_meta_def or_null_def js_or_def truthy_def)
  show ?thesis
    unfolding build_other[OF q] using ok by (simp add: quilt_pack_def demo_index_def)
qed

lemma collapse_inv_mono: "collapse_inv fs st K \<Longrightarrow> K \<subseteq> K' \<Longrightarrow> collapse_inv fs st K'"
  unfolding collapse_inv_def by blast

lemma collapse_inv_add:
  assumes inv: "collapse_inv fs st K" and new: "c_entries st pid = None" and k: "sha1 \<notin> K"
  shows "collapse_inv fs
           \<lparr> projectIds = projectIds st @ [pid],
             c_entries = (c_entries st)(pid \<mapsto> \<lparr> anyVersion = v, exampleSha1 = sha1, e_category = cat \<rparr>),
             c_origFile = (c_origFile st)(pid := sha1ToFileObj fs sha1) \<rparr>
           (insert sha1 K)"
proof -
  from inv have d: "distinct (projectIds st)" and s: "set (projectIds st) = dom (c_entries st)"
    and o: "dom (c_origFile st) \<subseteq> dom (c_entries st)"
    and e: "\<And>p e. c_entries st p = Some e \<Longrightarrow>
               exampleSha1 e \<in> K \<and> c_origFile st p = sha1ToFileObj fs (exampleSha1 e)"
    and i: "\<And>p p' e e'. c_entries st p = Some e \<Longrightarrow> c_entries st p' = Some e' \<Longrightarrow> p \<noteq> p' \<Longrightarrow>
               exampleSha1 e \<noteq> exampleSha1 e'"
    unfolding collapse_inv_def by blast+
  have notin: "pid \<notin> set (projectIds st)" using s new by auto
  show ?thesis
    unfolding collapse_inv_def
  proof (intro conjI allI impI)
    show "distinct (projectIds \<lparr> projectIds = projectIds st @ [pid],
             c_entries = (c_entries st)(pid \<mapsto> \<lparr> anyVersion = v, exampleSha1 = sha1, e_category = cat \<rparr>),
             c_origFile = (c_origFile st)(pid := sha1ToFileObj fs sha1) \<rparr>)"
      using d notin by simp
    show "set (projectIds \<lparr> projectIds = projectIds st @ [pid],
             c_entries = (c_entries st)(pid \<mapsto> \<lparr> anyVersion = v, exampleSha1 = sha1, e_category = cat \<rparr>),
             c_origFile = (c_origFile st)(pid := sha1ToFileObj fs sha1) \<rparr>)
          = dom (c_entries \<lparr> projectIds = projectIds st @ [pid],
             c_entries = (c_entries st)(pid \<mapsto> \<lparr> anyVersion = v, exampleSha1 = sha1, e_category = cat \<rparr>),
             c_origFile = (c_origFile st)(pid := sha1ToFileObj fs sha1) \<rparr>)"
      using s by auto
    show "dom (c_origFile \<lparr> projectIds = projectIds st @ [pid],
             c_entries = (c_entries st)(pid \<mapsto> \<lparr> anyVersion = v, exampleSha1 = sha1, e_category = cat \<rparr>),
             c_origFile = (c_origFile st)(pid := sha1ToFileObj fs sha1) \<rparr>)
          \<subseteq> dom (c_entries \<lparr> projectIds = projectIds st @ [pid],
             c_entries = (c_entries st)(pid \<mapsto> \<lparr> anyVersion = v, exampleSha1 = sha1, e_category = cat \<rparr>),
             c_origFile = (c_origFile st)(pid := sha1ToFileObj fs sha1) \<rparr>)"
      using o by (auto split: if_splits)
  next
    fix p e'
    assume "c_entries \<lparr> projectIds = projectIds st @ [pid],
             c_entries = (c_entries st)(pid \<mapsto> \<lparr> anyVersion = v, exampleSha1 = sha1, e_category = cat \<rparr>),
             c_origFile = (c_origFile st)(pid := sha1ToFileObj fs sha1) \<rparr> p = Some e'"
    then have c: "(p = pid \<and> e' = \<lparr> anyVersion = v, exampleSha1 = sha1, e_category = cat \<rparr>) \<or>
                  (p \<noteq> pid \<and> c_entries st p = Some e')"
      by (auto split: if_splits)
    then show "exampleSha1 e' \<in> insert sha1 K"
      using e by auto
    from c show "c_origFile \<lparr> projectIds = projectIds st @ [pid],
             c_entries = (c_entries st)(pid \<mapsto> \<lparr> anyVersion = v, exampleSha1 = sha1, e_category = cat \<rparr>),
             c_origFile = (c_origFile st)(pid := sha1ToFileObj fs sha1) \<rparr> p
          = sha1ToFileObj fs (exampleSha1 e')"
      using e by auto
  next
    fix p p' e1 e2
    assume a1: "c_entries \<lparr> projectIds = projectIds st @ [pid],
             c_entries = (c_entries st)(pid \<mapsto> \<lparr> anyVersion = v, exampleSha1 = sha1, e_category = cat \<rparr>),
             c_origFile = (c_origFile st)(pid := sha1ToFileObj fs sha1) \<rparr> p = Some e1"
      and a2: "c_entries \<lparr> projectIds = projectIds st @ [pid],
             c_entries = (c_entries st)(pid \<mapsto> \<lparr> anyVersion = v, exampleSha1 = sha1, e_category = cat \<rparr>),
             c_origFile = (c_origFile st)(pid := sha1ToFileObj fs sha1) \<rparr> p' = Some e2"
      and ne: "p \<noteq> p'"
    from a1 have c1: "(p = pid \<and> exampleSha1 e1 = sha1) \<or> (p \<noteq> pid \<and> c_entries st p = Some e1)"
      by (auto split: if_splits)
    from a2 have c2: "(p' = pid \<and> exampleSha1 e2 = sha1) \<or> (p' \<noteq> pid \<and> c_entries st p' = Some e2)"
      by (auto split: if_splits)
    show "exampleSha1 e1 \<noteq> exampleSha1 e2"
      using c1 c2 ne e i k by metis
  qed
qed

lemma collapse_inv_collapse:
  "collapse_inv fs st K \<Longrightarrow> distinct (map fst vm) \<Longrightarrow> fst ` set vm \<inter> K = {} \<Longrightarrow>
   collapse_inv fs (collapse fs vm st) (K \<union> fst ` set vm)"
proof (induction vm arbitrary: st K)
  case Nil
  then show ?case by simp
next
  case (Cons kv vm)
  obtain sha1 ver where kv: "kv = (sha1, ver)" by (cases kv)
  from Cons.prems kv have k: "sha1 \<notin> K" and d: "distinct (map fst vm)"
    and nk: "sha1 \<notin> fst ` set vm" and disj: "fst ` set vm \<inter> K = {}"
    by auto
  have eq: "K \<union> fst ` set (kv # vm) = insert sha1 K \<union> fst ` set vm" using kv by auto
  have disj': "fst ` set vm \<inter> insert sha1 K = {}" using disj nk by auto
  have skip: "collapse_inv fs (collapse fs vm st) (K \<union> fst ` set (kv # vm))"
    using Cons.IH[OF collapse_inv_mono[OF Cons.prems(1), of "insert sha1 K"] d disj'] eq by auto
  show ?case
  proof (cases ver)
    case None
    then show ?thesis using skip kv by simp
  next
    case (Some v)
    show ?thesis
    proof (cases "truthy (v_project_id v) \<and> c_entries st (the (v_project_id v)) = None")
      case False
      then show ?thesis using skip kv Some by (auto simp: Let_def)
    next
      case True
      have "collapse_inv fs
           \<lparr> projectIds = projectIds st @ [the (v_project_id v)],
             c_entries = (c_entries st)(the (v_project_id v) \<mapsto>
                \<lparr> anyVersion = v, exampleSha1 = sha1,
                  e_category = category_of_path (or_default (sha1ToPath fs sha1) []) \<rparr>),
             c_origFile = (c_origFile st)(the (v_project_id v) := sha1ToFileObj fs sha1) \<rparr>
           (insert sha1 K)"
        using collapse_inv_add[OF Cons.prems(1) _ k] True by blast
      from Cons.IH[OF this d disj'] show ?thesis
        using kv Some True eq by (simp add: Let_def)
    qed
  qed
qed

lemma sha1ToFileObj_fold:
  "fold (\<lambda>f m. if truthy (mf_sha1 f) then m(the (mf_sha1 f) \<mapsto> f) else m) fs m0 h = Some f \<Longrightarrow>
   (f \<in> set fs \<and> mf_sha1 f = Some h) \<or> m0 h = Some f"
proof (induction fs arbitrary: m0)
  case Nil
  then show ?case by simp
next
  case (Cons g fs)
  from Cons.IH[OF Cons.prems[simplified]] show ?case
    by (auto simp: truthy_def split: if_splits option.splits)
qed

lemma sha1ToFileObj_Some: "sha1ToFileObj fs h = Some f \<Longrightarrow> f \<in> set fs \<and> mf_sha1 f = Some h"
  using sha1ToFileObj_fold[of fs Map.empty h f] by (simp add: sha1ToFileObj_def)

lemma fr_path_fileRecord: "fr_path (fileRecord orig r) = row_path orig r"
  by (simp add: fileRecord_def)

lemma task_project_id:
  assumes "task_result A pid = Inr r"
  shows "project_id r = pid"
  using assms
proof (cases rule: task_cases)
  case primary
  then show ?thesis by (simp add: make_row_sel)
next
  case nomatch
  then show ?thesis by (simp add: make_row_sel)
next
  case (fallback gh)
  then show ?thesis by (simp add: make_row_sel)
qed

lemma distinct_paths_build:
  assumes d: "distinct (map project_id rs)"
    and inj: "\<And>r r'. r \<in> set rs \<Longrightarrow> r' \<in> set rs \<Longrightarrow> includable r \<Longrightarrow> includable r' \<Longrightarrow>
                project_id r \<noteq> project_id r' \<Longrightarrow> row_path orig r \<noteq> row_path orig r'"
  shows "distinct (map fr_path (fileRecords orig rs))"
proof -
  have dr: "distinct rs" using d by (simp add: distinct_map)
  have ip: "inj_on project_id (set rs)" using d by (simp add: distinct_map)
  have "inj_on (row_path orig) (set (filter includable rs))"
  proof (rule inj_onI)
    fix r r' assume r: "r \<in> set (filter includable rs)" and r': "r' \<in> set (filter includable rs)"
      and eq: "row_path orig r = row_path orig r'"
    show "r = r'"
    proof (rule ccontr)
      assume "r \<noteq> r'"
      then have "project_id r \<noteq> project_id r'" using ip r r' by (auto dest: inj_onD)
      then show False using inj[of r r'] r r' eq by auto
    qed
  qed
  then have "distinct (map (row_path orig) (filter includable rs))"
    using dr by (simp add: distinct_map)
  moreover have "map fr_path (fileRecords orig rs) = map (row_path orig) (filter includable rs)"
    by (simp add: fileRecords_def fr_path_fileRecord)
  ultimately show ?thesis by simp
qed

lemma collapse_all_inv:
  assumes "distinct (map fst vm)"
  shows "collapse_inv fs (collapse_all fs vm) (fst ` set vm)"
proof -
  have "collapse_inv fs \<lparr> projectIds = [], c_entries = Map.empty, c_origFile = Map.empty \<rparr> {}"
    by (simp add: collapse_inv_def)
  from collapse_inv_collapse[OF this assms] show ?thesis by (simp add: collapse_all_def)
qed

lemma collapsed_orig_paths:
  assumes dk: "distinct (map fst vm)" and dp: "distinct (map mf_path fs)"
    and tp: "\<forall>f\<in>set fs. truthy (mf_path f)"
    and req: "fst ` set vm \<subseteq> dom (sha1ToFileObj fs)"
    and st: "st = collapse_all fs vm"
  shows "distinct (projectIds st)"
    and "\<And>pid. pid \<in> set (projectIds st) \<Longrightarrow>
           \<exists>f. c_origFile st pid = Some f \<and> f \<in> set fs \<and> truthy (mf_path f)"
    and "\<And>pid pid' f f'. c_origFile st pid = Some f \<Longrightarrow> c_origFile st pid' = Some f' \<Longrightarrow>
           pid \<noteq> pid' \<Longrightarrow> mf_path f \<noteq> mf_path f'"
proof -
  have inv: "collapse_inv fs st (fst ` set vm)"
    unfolding st by (rule collapse_all_inv[OF dk])
  then have d: "distinct (projectIds st)" and s: "set (projectIds st) = dom (c_entries st)"
    and o: "dom (c_origFile st) \<subseteq> dom (c_entries st)"
    and e: "\<And>p e. c_entries st p = Some e \<Longrightarrow>
               exampleSha1 e \<in> fst ` set vm \<and> c_origFile st p = sha1ToFileObj fs (exampleSha1 e)"
    and i: "\<And>p p' e e'. c_entries st p = Some e \<Longrightarrow> c_entries st p' = Some e' \<Longrightarrow> p \<noteq> p' \<Longrightarrow>
               exampleSha1 e \<noteq> exampleSha1 e'"
    unfolding collapse_inv_def by blast+
  show "distinct (projectIds st)" by (rule d)
  show "\<exists>f. c_origFile st pid = Some f \<and> f \<in> set fs \<and> truthy (mf_path f)"
    if "pid \<in> set (projectIds st)" for pid
  proof -
    from that s obtain en where en: "c_entries st pid = Some en" by auto
    from e[OF en] req obtain f where f: "sha1ToFileObj fs (exampleSha1 en) = Some f"
      and c: "c_origFile st pid = sha1ToFileObj fs (exampleSha1 en)"
      by auto
    from sha1ToFileObj_Some[OF f] tp have "f \<in> set fs" "truthy (mf_path f)" by auto
    then show ?thesis using c f by simp
  qed
  show "mf_path f \<noteq> mf_path f'"
    if a: "c_origFile st pid = Some f" and b: "c_origFile st pid' = Some f'" and ne: "pid \<noteq> pid'"
    for pid pid' f f'
  proof -
    from a b o obtain en en' where en: "c_entries st pid = Some en" and en': "c_entries st pid' = Some en'"
      by (meson domD domI subsetD)
    from e[OF en] a have f: "sha1ToFileObj fs (exampleSha1 en) = Some f" by simp
    from e[OF en'] b have f': "sha1ToFileObj fs (exampleSha1 en') = Some f'" by simp
    from sha1ToFileObj_Some[OF f] sha1ToFileObj_Some[OF f'] i[OF en en' ne]
    have "f \<in> set fs" "f' \<in> set fs" "f \<noteq> f'" by auto
    then show ?thesis using dp by (auto simp: distinct_map dest: inj_onD)
  qed
qed

lemma row_path_orig:
  "orig (project_id r) = Some f \<Longrightarrow> truthy (mf_path f) \<Longrightarrow> Some (row_path orig r) = mf_path f"
  by (auto simp: row_path_def truthy_def split: option.splits)

text \<open>C7 (as amended). The path of a record is the path of the original manifest entry
  of the row's project when there is one with a non-empty path, and is otherwise composed
  from the row's category and slug alone. \<open>build\<close> has no step that removes or renames
  duplicates; the paths it emits are pairwise distinct when the declared files of the
  original manifest have pairwise distinct non-empty paths and the hash service answered
  only for hashes of the manifest: every row then takes the path of an original entry of
  its own.\<close>

theorem rebuilt_paths_distinct_for_distinct_manifest_paths:
  "(\<forall>orig r. fr_path (fileRecord orig r) =
        (case (case orig (project_id r) of None \<Rightarrow> None | Some f \<Rightarrow> mf_path f) of
           None \<Rightarrow> inferPathFromCategory r
         | Some p \<Rightarrow> if p = [] then inferPathFromCategory r else p))
   \<and> (\<forall>r r'. category r = category r' \<longrightarrow> slug r = slug r' \<longrightarrow>
         inferPathFromCategory r = inferPathFromCategory r')
   \<and> (distinct (map fst vm) \<longrightarrow> distinct (map mf_path fs) \<longrightarrow> (\<forall>f\<in>set fs. truthy (mf_path f)) \<longrightarrow>
      fst ` set vm \<subseteq> dom (sha1ToFileObj fs) \<longrightarrow>
      projectIdToOrigFile m = c_origFile (collapse_all fs vm) \<longrightarrow>
      list_all2 (\<lambda>r pid. task_result A pid = Inr r) (rows m) (projectIds (collapse_all fs vm)) \<longrightarrow>
      build m meta = Inr b \<longrightarrow>
        distinct (map fr_path (b_files b)) \<and>
        (\<forall>r\<in>set (rows m). includable r \<longrightarrow>
           (\<exists>f\<in>set fs. projectIdToOrigFile m (project_id r) = Some f \<and> mf_path f = Some (row_path (projectIdToOrigFile m) r))))"
proof (intro conjI allI impI)
  fix orig r
  show "fr_path (fileRecord orig r) =
        (case (case orig (project_id r) of None \<Rightarrow> None | Some f \<Rightarrow> mf_path f) of
           None \<Rightarrow> inferPathFromCategory r
         | Some p \<Rightarrow> if p = [] then inferPathFromCategory r else p)"
    by (simp add: fileRecord_def row_path_def)
next
  fix r r' :: row
  assume "category r = category r'" "slug r = slug r'"
  then show "inferPathFromCategory r = inferPathFromCategory r'"
    by (simp add: inferPathFromCategory_def)
next
  assume dk: "distinct (map fst vm)" and dp: "distinct (map mf_path fs)"
    and tp: "\<forall>f\<in>set fs. truthy (mf_path f)" and req: "fst ` set vm \<subseteq> dom (sha1ToFileObj fs)"
    and og: "projectIdToOrigFile m = c_origFile (collapse_all fs vm)"
    and rw: "list_all2 (\<lambda>r pid. task_result A pid = Inr r) (rows m) (projectIds (collapse_all fs vm))"
    and bd: "build m meta = Inr b"
  note cp = collapsed_orig_paths[OF dk dp tp req refl]
  have ids: "map project_id (rows m) = projectIds (collapse_all fs vm)"
    using rw by (induction rule: list_all2_induct) (auto dest: task_project_id)
  have mem: "\<And>r. r \<in> set (rows m) \<Longrightarrow> project_id r \<in> set (projectIds (collapse_all fs vm))"
    using ids by (metis image_eqI set_map)
  have of: "\<And>r. r \<in> set (rows m) \<Longrightarrow>
     \<exists>f\<in>set fs. projectIdToOrigFile m (project_id r) = Some f \<and> mf_path f = Some (row_path (projectIdToOrigFile m) r)"
  proof -
    fix r assume "r \<in> set (rows m)"
    from cp(2)[OF mem[OF this]] obtain f where f: "c_origFile (collapse_all fs vm) (project_id r) = Some f"
      "f \<in> set fs" "truthy (mf_path f)" by blast
    then show "\<exists>f\<in>set fs. projectIdToOrigFile m (project_id r) = Some f \<and> mf_path f = Some (row_path (projectIdToOrigFile m) r)"
      using row_path_orig[of "projectIdToOrigFile m" r f] og by auto
  qed
  have "distinct (map fr_path (fileRecords (projectIdToOrigFile m) (rows m)))"
  proof (rule distinct_paths_build)
    show "distinct (map project_id (rows m))" using ids cp(1) by simp
    fix r r' assume r: "r \<in> set (rows m)" and r': "r' \<in> set (rows m)"
      and ne: "project_id r \<noteq> project_id r'"
    from of[OF r] obtain f where f: "projectIdToOrigFile m (project_id r) = Some f"
      "mf_path f = Some (row_path (projectIdToOrigFile m) r)" by blast
    from of[OF r'] obtain f' where f': "projectIdToOrigFile m (project_id r') = Some f'"
      "mf_path f' = Some (row_path (projectIdToOrigFile m) r')" by blast
    from cp(3)[of "project_id r" f "project_id r'" f'] f f' ne og
    show "row_path (projectIdToOrigFile m) r \<noteq> row_path (projectIdToOrigFile m) r'" by auto
  qed
  then show "distinct (map fr_path (b_files b))" using build_Inr(2)[OF bd] by simp
  show "\<forall>r\<in>set (rows m). includable r \<longrightarrow>
           (\<exists>f\<in>set fs. projectIdToOrigFile m (project_id r) = Some f \<and> mf_path f = Some (row_path (projectIdToOrigFile m) r))"
    using of by blast
qed

theorem rebuilt_paths_distinct_for_distinct_manifest_paths_witness:
  "distinct (map fst demo_versionMap) \<and> distinct (map mf_path (ix_files demo_index)) \<and>
   list_all (\<lambda>f. truthy (mf_path f)) (ix_files demo_index) \<and>
   fst ` set demo_versionMap \<subseteq> dom (sha1ToFileObj (ix_files demo_index)) \<and>
   projectIdToOrigFile piped_pack = c_origFile (collapse_all (ix_files demo_index) demo_versionMap) \<and>
   list_all2 (\<lambda>r pid. task_result demo_analysis pid = Inr r) (rows piped_pack)
     (projectIds (collapse_all (ix_files demo_index) demo_versionMap)) \<and>
   build piped_pack MetaThrows = Inr (projr (build piped_pack MetaThrows)) \<and>
   distinct (map fr_path (b_files (projr (build piped_pack MetaThrows))))"
proof -
  have dk: "distinct (map fst demo_versionMap)" by code_simp
  have dp: "distinct (map mf_path (ix_files demo_index))" by code_simp
  have tp': "list_all (\<lambda>f. truthy (mf_path f)) (ix_files demo_index)" by code_simp
  then have tp: "\<forall>f\<in>set (ix_files demo_index). truthy (mf_path f)" by (simp only: list_all_iff)
  have "list_all (\<lambda>k. sha1ToFileObj (ix_files demo_index) k \<noteq> None) (map fst demo_versionMap)"
    by code_simp
  then have req: "fst ` set demo_versionMap \<subseteq> dom (sha1ToFileObj (ix_files demo_index))"
    by (auto simp: list_all_iff)
  have og: "projectIdToOrigFile piped_pack = c_origFile (collapse_all (ix_files demo_index) demo_versionMap)"
    by (simp add: piped_pack_def)
  have ids: "projectIds (collapse_all (ix_files demo_index) demo_versionMap) = [''P1'', ''TQTTVgYE'', ''P4'']"
    by code_simp
  have rs: "rows piped_pack = [demo_row ''P1'', demo_row ''TQTTVgYE'', demo_row ''P4'']"
    by (simp add: piped_pack_def demo_pack_def)
  have rw: "list_all2 (\<lambda>r pid. task_result demo_analysis pid = Inr r) (rows piped_pack)
     (projectIds (collapse_all (ix_files demo_index) demo_versionMap))"
    unfolding ids rs using demo_rows_eval by simp
  have "hasData piped_pack" by (simp add: hasData_def piped_pack_def demo_pack_def)
  from build_completes[OF this] obtain b0 where "build piped_pack MetaThrows = Inr b0" by blast
  then have bld: "build piped_pack MetaThrows = Inr (projr (build piped_pack MetaThrows))" by simp
  note t = rebuilt_paths_distinct_for_distinct_manifest_paths[of demo_versionMap "ix_files demo_index"
      piped_pack demo_analysis MetaThrows "projr (build piped_pack MetaThrows)",
      THEN conjunct2, THEN conjunct2, THEN mp, OF dk, THEN mp, OF dp, THEN mp, OF tp, THEN mp, OF req,
      THEN mp, OF og, THEN mp, OF rw, THEN mp, OF bld, THEN conjunct1]
  show ?thesis using dk dp tp' req og rw bld t by (intro conjI)
qed

text \<open>The claim as stated fails: two packageable rows of different projects whose
  original entries carry the same path give two records with that path.\<close>

theorem duplicate_paths_in_rebuilt_manifest:
  "projectIds (collapse_all clash_files clash_versionMap) = [''P1'', ''P4''] \<and>
   task_result demo_analysis ''P1'' = Inr (demo_row ''P1'') \<and>
   task_result demo_analysis ''P4'' = Inr (demo_row ''P4'') \<and>
   includable (demo_row ''P1'') \<and> includable (demo_row ''P4'') \<and>
   map fr_path (b_files (projr (build clash_pack MetaThrows))) = [''mods/a.jar'', ''mods/a.jar''] \<and>
   \<not> distinct (map fr_path (b_files (projr (build clash_pack MetaThrows))))"
proof -
  have h: "hasData clash_pack" "mp_index clash_pack = Some demo_index" "selectedLoader clash_pack = ''fabric''"
    by (simp_all add: hasData_def clash_pack_def demo_pack_def)
  have ids: "projectIds (collapse_all clash_files clash_versionMap) = [''P1'', ''P4'']"
    by code_simp
  have i: "includable (demo_row ''P1'')" "includable (demo_row ''P4'')"
    by code_simp+
  have pth: "row_path (c_origFile (collapse_all clash_files clash_versionMap)) (demo_row ''P1'') = ''mods/a.jar''"
    "row_path (c_origFile (collapse_all clash_files clash_versionMap)) (demo_row ''P4'') = ''mods/a.jar''"
    by code_simp+
  have p: "map fr_path (b_files (projr (build clash_pack MetaThrows))) = [''mods/a.jar'', ''mods/a.jar'']"
    unfolding build_fabric[OF h]
    by (simp add: clash_pack_def fileRecords_def i fr_path_fileRecord pth)
  show ?thesis using ids demo_rows_eval(1,3) i p by simp
qed

section \<open>Fallback Source Arbiter\<close>








end
